theory Spec2Isabelle
  imports
    Complex_Main
    "HOL-Library.Char_ord"
    "HOL-Library.List_Lexorder"
    "HOL-Library.Product_Lexorder"
begin

section \<open>Test positivity: data model\<close>

text \<open>
  A shallow embedding of \<^verbatim>\<open>src/libs/test_positivity.py\<close>: the class \<^verbatim>\<open>Method\<close> with
  \<^verbatim>\<open>Method.calculate\<close>, and \<^verbatim>\<open>AllMethods.run\<close>. The pandas operations the code
  calls (\<^verbatim>\<open>unstack\<close>, \<^verbatim>\<open>reindex\<close>, \<^verbatim>\<open>diff\<close>, aligned division, \<^verbatim>\<open>concat\<close>,
  \<^verbatim>\<open>dropna\<close>, \<^verbatim>\<open>sort_index\<close>, \<^verbatim>\<open>groupby(...).first()\<close>, \<^verbatim>\<open>stack\<close>) are
  written out as list functions with the behaviour pandas documents for them.

  Dates are day numbers (\<open>int\<close>); strings compare by code point, as Python's do.
  A table cell is a float64: a finite value, negative zero, one of the two infinities,
  or NaN, which is pandas' missing value. \<open>Fin 0\<close> is \<^verbatim>\<open>+0.0\<close> and \<open>NZero\<close> is
  \<^verbatim>\<open>-0.0\<close>. Arithmetic on finite values is exact (rounding and overflow are left
  out).
\<close>

type_synonym FieldName = string
type_synonym location = string
type_synonym date = int

datatype cell = NaN | Fin real | NZero | PInf | NInf

datatype error = AssertionError | ValueError | KeyError

text \<open>\<^verbatim>\<open>notna\<close>: everything but NaN is a value, the infinities included.\<close>

fun notna :: "cell \<Rightarrow> bool" where
  "notna NaN = False"
| "notna (Fin a) = True"
| "notna PInf = True"
| "notna NInf = True"
| "notna NZero = True"

text \<open>
  The parts of a float the special cases of IEEE 754 arithmetic look at: the sign bit,
  whether the value is a zero (\<open>Fin 0\<close> is \<^verbatim>\<open>+0.0\<close>, \<open>NZero\<close> is \<^verbatim>\<open>-0.0\<close>; both
  compare equal to 0), whether it is an infinity, and its real value.
\<close>

fun sign_bit :: "cell \<Rightarrow> bool" where
  "sign_bit NaN = False"
| "sign_bit (Fin a) = (a < 0)"
| "sign_bit NZero = True"
| "sign_bit PInf = False"
| "sign_bit NInf = True"

fun is_zero :: "cell \<Rightarrow> bool" where
  "is_zero NaN = False"
| "is_zero (Fin a) = (a = 0)"
| "is_zero NZero = True"
| "is_zero PInf = False"
| "is_zero NInf = False"

fun is_inf :: "cell \<Rightarrow> bool" where
  "is_inf NaN = False"
| "is_inf (Fin a) = False"
| "is_inf NZero = False"
| "is_inf PInf = True"
| "is_inf NInf = True"

fun real_of :: "cell \<Rightarrow> real" where
  "real_of NaN = 0"
| "real_of (Fin a) = a"
| "real_of NZero = 0"
| "real_of PInf = 0"
| "real_of NInf = 0"

text \<open>
  Float subtraction, \<^verbatim>\<open>x - y\<close>: NaN if an operand is NaN or both are the same
  infinity; an infinite operand decides the result otherwise; a zero result is
  \<^verbatim>\<open>-0.0\<close> only for \<^verbatim>\<open>-0.0 - +0.0\<close>; the exact difference in all other cases.
\<close>

definition fsub :: "cell \<Rightarrow> cell \<Rightarrow> cell" where
  "fsub x y =
     (if \<not> notna x \<or> \<not> notna y then NaN
      else if is_inf x then (if is_inf y \<and> sign_bit x = sign_bit y then NaN else x)
      else if is_inf y then (if sign_bit y then PInf else NInf)
      else if is_zero x \<and> sign_bit x \<and> is_zero y \<and> \<not> sign_bit y then NZero
      else Fin (real_of x - real_of y))"

text \<open>
  Float division, \<^verbatim>\<open>x / y\<close>: NaN if an operand is NaN, for infinity over infinity
  and for zero over zero. Otherwise the sign of the result is negative exactly when
  the sign bits of the operands differ; the result is an infinity when \<open>x\<close> is
  infinite or \<open>y\<close> is a zero (of either sign), a zero when \<open>x\<close> is a zero or \<open>y\<close> is
  infinite, and the exact quotient in all other cases.
\<close>

definition fdiv :: "cell \<Rightarrow> cell \<Rightarrow> cell" where
  "fdiv x y =
     (if \<not> notna x \<or> \<not> notna y then NaN
      else if is_inf x \<and> is_inf y then NaN
      else if is_zero x \<and> is_zero y then NaN
      else if is_inf x \<or> is_zero y then (if sign_bit x \<noteq> sign_bit y then NInf else PInf)
      else if is_zero x \<or> is_inf y then (if sign_bit x \<noteq> sign_bit y then NZero else Fin 0)
      else Fin (real_of x / real_of y))"

text \<open>The dataclass \<^verbatim>\<open>Method\<close>.\<close>

record Method =
  name :: string
  numerator :: FieldName
  denominator :: FieldName

text \<open>
  One row of the long-form frame: \<^verbatim>\<open>variable\<close>, \<^verbatim>\<open>location_id\<close>, \<^verbatim>\<open>date\<close>,
  \<^verbatim>\<open>value\<close>.
\<close>

record observation =
  variable :: FieldName
  location_id :: location
  date :: date
  val :: cell

text \<open>
  Modelled from the spec: the class \<^verbatim>\<open>MultiRegionTimeseriesDataset\<close> of
  \<^verbatim>\<open>libs.datasets.timeseries\<close> is not among the sources. The input dataset is the
  list of value columns of its \<^verbatim>\<open>data\<close> frame together with its long-form
  observations; \<^verbatim>\<open>timeseries_long\<close> "flattens the stored per-region time series
  into long-form observation records, restricted to the requested fields", one
  requested column after the other.
\<close>

record MultiRegionTimeseriesDataset =
  data_columns :: "FieldName list"
  observations :: "observation list"

definition timeseries_long ::
  "MultiRegionTimeseriesDataset \<Rightarrow> FieldName list \<Rightarrow> observation list" where
  "timeseries_long ds cols =
     concat (map (\<lambda>c. filter (\<lambda>ob. variable ob = c) (observations ds)) cols)"

text \<open>
  A wide frame: the column labels (dates) and the rows, each a row label with one cell
  per column. The row label is a pair for a two-level index.
\<close>

record 'k DataFrame =
  columns :: "date list"
  rows :: "('k \<times> cell list) list"

text \<open>
  Modelled from the spec: \<^verbatim>\<open>MultiRegionTimeseriesDataset.from_timeseries_df\<close> is not
  among the sources; it "reconstructs a storage instance from a set of long-form
  records plus a provenance mapping". The output dataset holds both as they are given:
  the records \<open>(location_id, date, positivity)\<close> and the provenance series indexed
  by \<open>(location_id, variable)\<close>.
\<close>

record TimeseriesOut =
  timeseries_df :: "(location \<times> date \<times> cell) list"
  provenance :: "((location \<times> string) \<times> string) list"

definition from_timeseries_df ::
  "(location \<times> date \<times> cell) list \<Rightarrow> ((location \<times> string) \<times> string) list \<Rightarrow> TimeseriesOut" where
  "from_timeseries_df recs prov = \<lparr>timeseries_df = recs, provenance = prov\<rparr>"

text \<open>The dataclass \<^verbatim>\<open>AllMethods\<close>.\<close>

record AllMethods =
  all_methods_timeseries :: "(location \<times> string) DataFrame"
  test_positivity :: TimeseriesOut

section \<open>Method.calculate\<close>

text \<open>
  \<^verbatim>\<open>delta_df.loc[field, :]\<close>: the rows whose first index level is \<open>field\<close>, without
  that level; \<^verbatim>\<open>KeyError\<close> when no row has it.
\<close>

definition field_rows ::
  "((FieldName \<times> location) \<times> cell list) list \<Rightarrow> FieldName \<Rightarrow> (location \<times> cell list) list" where
  "field_rows rs f = map (\<lambda>((v, l), r). (l, r)) (filter (\<lambda>((v, l), r). v = f) rs)"

definition loc_field ::
  "(FieldName \<times> location) DataFrame \<Rightarrow> FieldName \<Rightarrow> error + location DataFrame" where
  "loc_field df f =
     (let rs = field_rows (rows df) f
      in if rs = [] then Inl KeyError else Inr \<lparr>columns = columns df, rows = rs\<rparr>)"

text \<open>
  \<^verbatim>\<open>a / b\<close> on two frames with the same columns: the rows are aligned on the union
  of the two indexes; a label missing on one side gives a row of NaN. The frames
  divided in \<^verbatim>\<open>run\<close> are cut from the sorted delta frame, so their indexes are
  sorted, and the result is in sorted order whether pandas keeps two identical
  indexes as they are or joins two different ones.
\<close>

definition frame_div :: "location DataFrame \<Rightarrow> location DataFrame \<Rightarrow> location DataFrame" where
  "frame_div a b =
     \<lparr>columns = columns a,
      rows = map (\<lambda>l. (l, case (map_of (rows a) l, map_of (rows b) l) of
                             (Some x, Some y) \<Rightarrow> map2 fdiv x y
                           | _ \<Rightarrow> replicate (length (columns a)) NaN))
                 (sort (remdups (map fst (rows a) @ map fst (rows b))))\<rparr>"

definition calculate ::
  "Method \<Rightarrow> (FieldName \<times> location) DataFrame \<Rightarrow> error + location DataFrame" where
  "calculate m delta_df =
     (case loc_field delta_df (numerator m) of
        Inl e \<Rightarrow> Inl e
      | Inr n \<Rightarrow>
         (case loc_field delta_df (denominator m) of
            Inl e \<Rightarrow> Inl e
          | Inr d \<Rightarrow> Inr (frame_div n d)))"

section \<open>AllMethods.run\<close>

text \<open>
  The fields the methods need. The code builds \<^verbatim>\<open>list(set(...))\<close>, whose order
  Python does not fix: the body of \<^verbatim>\<open>run\<close> below takes the list as a parameter, and
  \<open>run\<close> itself passes the sorted enumeration.
\<close>

definition method_fields :: "Method list \<Rightarrow> FieldName list" where
  "method_fields methods = concat (map (\<lambda>m. [numerator m, denominator m]) methods)"

definition ts_value_cols :: "Method list \<Rightarrow> FieldName list" where
  "ts_value_cols methods = sort (remdups (method_fields methods))"

text \<open>\<^verbatim>\<open>pd.date_range(start=start_date, end=end_date)\<close>, daily.\<close>

definition date_range :: "date \<Rightarrow> date \<Rightarrow> date list" where
  "date_range start_date end_date = [start_date..end_date]"

text \<open>
  \<^verbatim>\<open>pd.date_range(end=end_date, periods=recent_days).intersection(input_date_range)\<close>.
  The number of periods is a natural number (the spec requires it positive).
\<close>

definition recent_range :: "date \<Rightarrow> nat \<Rightarrow> date list \<Rightarrow> date list" where
  "recent_range end_date recent_days input_date_range =
     filter (\<lambda>d. d \<in> set input_date_range) [end_date - int recent_days + 1..end_date]"

text \<open>
  \<^verbatim>\<open>input_long.unstack(DATE).reindex(columns=input_date_range)\<close>: one row per
  \<open>(variable, location_id)\<close> of the long frame, in sorted order, one column per date
  of the range; a cell without observation is NaN.
\<close>

definition obs_key :: "observation \<Rightarrow> (FieldName \<times> location) \<times> date" where
  "obs_key ob = ((variable ob, location_id ob), date ob)"

definition cell_at :: "observation list \<Rightarrow> (FieldName \<times> location) \<Rightarrow> date \<Rightarrow> cell" where
  "cell_at long k d =
     (case map_of (map (\<lambda>ob. (obs_key ob, val ob)) long) (k, d) of
        None \<Rightarrow> NaN
      | Some v \<Rightarrow> v)"

definition unstack_reindex ::
  "observation list \<Rightarrow> date list \<Rightarrow> (FieldName \<times> location) DataFrame" where
  "unstack_reindex long axis =
     \<lparr>columns = axis,
      rows = map (\<lambda>k. (k, map (cell_at long k) axis))
                 (sort (remdups (map (\<lambda>ob. (variable ob, location_id ob)) long)))\<rparr>"

text \<open>
  \<^verbatim>\<open>diff(periods=diff_days, axis=1)\<close>: each cell minus the cell \<open>diff_days\<close>
  columns to its left; NaN where that column does not exist.
\<close>

definition diff_cells :: "int \<Rightarrow> cell list \<Rightarrow> cell list" where
  "diff_cells periods xs =
     map (\<lambda>i. let j = int i - periods
               in if 0 \<le> j \<and> j < int (length xs) then fsub (xs ! i) (xs ! nat j) else NaN)
         [0..<length xs]"

definition diff_frame :: "int \<Rightarrow> 'k DataFrame \<Rightarrow> 'k DataFrame" where
  "diff_frame periods df =
     \<lparr>columns = columns df, rows = map (\<lambda>(k, r). (k, diff_cells periods r)) (rows df)\<rparr>"

text \<open>
  The dict comprehension \<^verbatim>\<open>{method.name: method.calculate(diff_df) for method in methods}\<close>:
  the methods are evaluated in order and the first \<^verbatim>\<open>KeyError\<close> ends the run.
\<close>

fun calculate_all ::
  "Method list \<Rightarrow> (FieldName \<times> location) DataFrame \<Rightarrow> error + (string \<times> location DataFrame) list" where
  "calculate_all [] delta_df = Inr []"
| "calculate_all (m # ms) delta_df =
     (case calculate m delta_df of
        Inl e \<Rightarrow> Inl e
      | Inr f \<Rightarrow>
         (case calculate_all ms delta_df of
            Inl e \<Rightarrow> Inl e
          | Inr fs \<Rightarrow> Inr ((name m, f) # fs)))"

text \<open>
  \<^verbatim>\<open>pd.concat(..., names=[VARIABLE]).reorder_levels([LOCATION_ID, VARIABLE])\<close>: the
  frames one below the other, each row labelled \<open>(location_id, method name)\<close>.
\<close>

definition concat_frames ::
  "date list \<Rightarrow> (string \<times> location DataFrame) list \<Rightarrow> (location \<times> string) DataFrame" where
  "concat_frames axis fs =
     \<lparr>columns = axis,
      rows = concat (map (\<lambda>(n, f). map (\<lambda>(l, r). ((l, n), r)) (rows f)) fs)\<rparr>"

text \<open>\<^verbatim>\<open>dropna("index", "all")\<close>: drop the rows that are NaN in every column.\<close>

definition dropna_all :: "'k DataFrame \<Rightarrow> 'k DataFrame" where
  "dropna_all df =
     \<lparr>columns = columns df, rows = filter (\<lambda>(k, r). \<exists>c \<in> set r. notna c) (rows df)\<rparr>"

definition sort_index :: "('k::linorder) DataFrame \<Rightarrow> 'k DataFrame" where
  "sort_index df = \<lparr>columns = columns df, rows = sort_key fst (rows df)\<rparr>"

text \<open>
  \<^verbatim>\<open>all_wide.loc[:, recent_date_range].notna().any(axis=1)\<close> for one row: some cell
  in a column of the recent range is not NaN.
\<close>

definition has_recent_data :: "date list \<Rightarrow> date list \<Rightarrow> cell list \<Rightarrow> bool" where
  "has_recent_data axis recent r =
     (\<exists>(d, c) \<in> set (zip axis r). d \<in> set recent \<and> notna c)"

text \<open>
  \<^verbatim>\<open>groupby(LOCATION_ID).first()\<close>: one row per location, in sorted order; each
  column (the method name and every date) holds the first entry that is not null
  among the location's rows, taken in the order of the frame.
\<close>

fun first_cells :: "cell list list \<Rightarrow> cell list" where
  "first_cells [] = []"
| "first_cells [r] = r"
| "first_cells (r # rs) = map2 (\<lambda>x y. if notna x then x else y) r (first_cells rs)"

definition groupby_first ::
  "((location \<times> string) \<times> cell list) list \<Rightarrow> (location \<times> string \<times> cell list) list" where
  "groupby_first rs =
     map (\<lambda>l. let g = filter (\<lambda>((l', n), r). l' = l) rs
               in (l, snd (fst (hd g)), first_cells (map snd g)))
         (sort (remdups (map (\<lambda>((l, n), r). l) rs)))"

text \<open>
  \<^verbatim>\<open>positivity.stack()\<close>: the long form of the frame, without the NaN cells.
\<close>

definition stack :: "date list \<Rightarrow> (location \<times> cell list) list \<Rightarrow> (location \<times> date \<times> cell) list" where
  "stack axis rs =
     concat (map (\<lambda>(l, r). map (\<lambda>(d, c). (l, d, c)) (filter (\<lambda>(d, c). notna c) (zip axis r))) rs)"

text \<open>
  The local variables of \<^verbatim>\<open>run\<close>, each as a function of what it is computed from:
  \<open>long\<close> is \<^verbatim>\<open>input_long\<close>, \<open>fs\<close> the frames of the methods.
\<close>

definition start_date :: "observation list \<Rightarrow> date" where
  "start_date long = Min (set (map date long))"

definition end_date :: "observation list \<Rightarrow> date" where
  "end_date long = Max (set (map date long))"

definition input_date_range :: "observation list \<Rightarrow> date list" where
  "input_date_range long = date_range (start_date long) (end_date long)"

definition recent_date_range :: "observation list \<Rightarrow> nat \<Rightarrow> date list" where
  "recent_date_range long recent_days =
     recent_range (end_date long) recent_days (input_date_range long)"

definition input_wide :: "observation list \<Rightarrow> (FieldName \<times> location) DataFrame" where
  "input_wide long = unstack_reindex long (input_date_range long)"

definition diff_df :: "observation list \<Rightarrow> int \<Rightarrow> (FieldName \<times> location) DataFrame" where
  "diff_df long diff_days = diff_frame diff_days (input_wide long)"

definition all_wide ::
  "observation list \<Rightarrow> (string \<times> location DataFrame) list \<Rightarrow> (location \<times> string) DataFrame" where
  "all_wide long fs = sort_index (dropna_all (concat_frames (input_date_range long) fs))"

definition all_recent_data ::
  "observation list \<Rightarrow> nat \<Rightarrow> (location \<times> string) DataFrame \<Rightarrow> ((location \<times> string) \<times> cell list) list" where
  "all_recent_data long recent_days aw =
     filter (\<lambda>(k, r). has_recent_data (input_date_range long) (recent_date_range long recent_days) r)
            (rows aw)"

text \<open>
  The body of \<^verbatim>\<open>run\<close> from line 84 on, for a given enumeration \<open>cols\<close> of the
  needed fields (\<open>run_cols\<close>), and its part from line 89 on, for a given
  \<^verbatim>\<open>input_long\<close> (\<open>run_long\<close>). The failures, in the order the code meets them:
  \<^item> the assertion that every needed field is a column of the input;
  \<^item> \<^verbatim>\<open>pd.date_range\<close> raises \<^verbatim>\<open>ValueError\<close> when the long frame is empty (its
    minimum and maximum dates are \<^verbatim>\<open>NaT\<close>);
  \<^item> \<^verbatim>\<open>unstack\<close> raises \<^verbatim>\<open>ValueError\<close> when two observations share
    \<open>(variable, location_id, date)\<close>;
  \<^item> \<^verbatim>\<open>Method.calculate\<close> raises \<^verbatim>\<open>KeyError\<close> when no row of the delta frame
    has the numerator or the denominator;
  \<^item> \<^verbatim>\<open>pd.concat\<close> raises \<^verbatim>\<open>ValueError\<close> on no frames, and
    \<^verbatim>\<open>pd.CategoricalDtype\<close> raises \<^verbatim>\<open>ValueError\<close> when two methods share a name
    (whatever the dict comprehension kept of them).
  The conversion of the method column to the ordered categorical type and back to
  \<^verbatim>\<open>str\<close> changes no value and no row order.
\<close>

definition assemble ::
  "observation list \<Rightarrow> nat \<Rightarrow> (location \<times> string) DataFrame \<Rightarrow> AllMethods" where
  "assemble long recent_days aw =
     (let first = groupby_first (all_recent_data long recent_days aw);
          prov = map (\<lambda>(l, n, r). ((l, ''positivity''), n)) first;
          positivity = map (\<lambda>(l, n, r). (l, r)) first
      in \<lparr>all_methods_timeseries = aw,
          test_positivity = from_timeseries_df (stack (input_date_range long) positivity) prov\<rparr>)"

definition run_long :: "observation list \<Rightarrow> Method list \<Rightarrow> int \<Rightarrow> nat \<Rightarrow> error + AllMethods" where
  "run_long input_long methods diff_days recent_days =
     (if input_long = [] then Inl ValueError
      else if \<not> distinct (map obs_key input_long) then Inl ValueError
      else
        case calculate_all methods (diff_df input_long diff_days) of
          Inl e \<Rightarrow> Inl e
        | Inr fs \<Rightarrow>
           if methods = [] \<or> \<not> distinct (map name methods) then Inl ValueError
           else Inr (assemble input_long recent_days (all_wide input_long fs)))"

definition run_cols ::
  "FieldName list \<Rightarrow> MultiRegionTimeseriesDataset \<Rightarrow> Method list \<Rightarrow> int \<Rightarrow> nat \<Rightarrow> error + AllMethods" where
  "run_cols cols metrics_in methods diff_days recent_days =
     (if \<not> set cols \<subseteq> set (data_columns metrics_in) then Inl AssertionError
      else run_long (timeseries_long metrics_in cols) methods diff_days recent_days)"

definition run ::
  "MultiRegionTimeseriesDataset \<Rightarrow> Method list \<Rightarrow> int \<Rightarrow> nat \<Rightarrow> error + AllMethods" where
  "run metrics_in methods diff_days recent_days =
     run_cols (ts_value_cols methods) metrics_in methods diff_days recent_days"

section \<open>What a successful run computes\<close>

text \<open>The frame \<^verbatim>\<open>Method.calculate\<close> returns when neither lookup raises.\<close>

definition method_frame :: "(FieldName \<times> location) DataFrame \<Rightarrow> Method \<Rightarrow> location DataFrame" where
  "method_frame df m =
     frame_div \<lparr>columns = columns df, rows = field_rows (rows df) (numerator m)\<rparr>
               \<lparr>columns = columns df, rows = field_rows (rows df) (denominator m)\<rparr>"

text \<open>
  The inputs on which \<^verbatim>\<open>run\<close> raises nothing: every needed field is a column and has
  an observation, no two observations of the needed fields share
  \<open>(variable, location_id, date)\<close>, and the registry is not empty and has no name
  twice.
\<close>

definition schema_ok :: "MultiRegionTimeseriesDataset \<Rightarrow> Method list \<Rightarrow> bool" where
  "schema_ok metrics_in methods \<longleftrightarrow>
     set (method_fields methods) \<subseteq> set (data_columns metrics_in) \<and>
     (\<forall>f \<in> set (method_fields methods). f \<in> variable ` set (observations metrics_in)) \<and>
     distinct (map obs_key (timeseries_long metrics_in (ts_value_cols methods))) \<and>
     methods \<noteq> [] \<and> distinct (map name methods)"

section \<open>Example inputs\<close>

text \<open>One region with a gap on day 2 and a counter corrected downward on day 1.\<close>

definition delta_example :: "observation list" where
  "delta_example =
     [\<lparr>variable = ''cases'', location_id = ''R'', date = 0, val = Fin 10\<rparr>,
      \<lparr>variable = ''cases'', location_id = ''R'', date = 1, val = Fin 8\<rparr>,
      \<lparr>variable = ''cases'', location_id = ''R'', date = 3, val = Fin 12\<rparr>]"

text \<open>An observation with a finite value.\<close>

definition obs :: "FieldName \<Rightarrow> location \<Rightarrow> date \<Rightarrow> real \<Rightarrow> observation" where
  "obs v l d x = \<lparr>variable = v, location_id = l, date = d, val = Fin x\<rparr>"

text \<open>
  The second and third methods of \<^verbatim>\<open>TEST_POSITIVITY_METHODS\<close>, in their order there,
  and a region with two days of all three fields.
\<close>

definition priority_methods :: "Method list" where
  "priority_methods =
     [\<lparr>name = ''positiveTestsViral_totalTestsViral'',
       numerator = ''positive_tests_viral'', denominator = ''total_tests_viral''\<rparr>,
      \<lparr>name = ''positiveCasesViral_totalTestsViral'',
       numerator = ''positive_cases_viral'', denominator = ''total_tests_viral''\<rparr>]"

definition priority_input :: MultiRegionTimeseriesDataset where
  "priority_input =
     \<lparr>data_columns = [''positive_cases_viral'', ''positive_tests_viral'', ''total_tests_viral''],
      observations =
        [obs ''positive_tests_viral'' ''R'' 0 1, obs ''positive_tests_viral'' ''R'' 1 3,
         obs ''positive_cases_viral'' ''R'' 0 2, obs ''positive_cases_viral'' ''R'' 1 3,
         obs ''total_tests_viral'' ''R'' 0 10, obs ''total_tests_viral'' ''R'' 1 20]\<rparr>"

text \<open>
  Two methods whose names sort in registry order; the numerator of the first is
  reported on the last two days only.
\<close>

definition mixture_methods :: "Method list" where
  "mixture_methods =
     [\<lparr>name = ''method1'', numerator = ''positive_tests'', denominator = ''total_tests''\<rparr>,
      \<lparr>name = ''method2'', numerator = ''positive_cases'', denominator = ''total_tests''\<rparr>]"

definition mixture_input :: MultiRegionTimeseriesDataset where
  "mixture_input =
     \<lparr>data_columns = [''positive_cases'', ''positive_tests'', ''total_tests''],
      observations =
        [obs ''positive_tests'' ''R'' 2 4, obs ''positive_tests'' ''R'' 3 6,
         obs ''positive_cases'' ''R'' 0 1, obs ''positive_cases'' ''R'' 1 2,
         obs ''positive_cases'' ''R'' 2 4, obs ''positive_cases'' ''R'' 3 9,
         obs ''total_tests'' ''R'' 0 10, obs ''total_tests'' ''R'' 1 20,
         obs ''total_tests'' ''R'' 2 40, obs ''total_tests'' ''R'' 3 50]\<rparr>"

text \<open>The input of \<open>priority_input\<close> without any observation of one needed field.\<close>

definition missing_field_input :: MultiRegionTimeseriesDataset where
  "missing_field_input =
     \<lparr>data_columns = [''positive_cases_viral'', ''positive_tests_viral'', ''total_tests_viral''],
      observations =
        [obs ''positive_tests_viral'' ''R'' 0 1, obs ''positive_tests_viral'' ''R'' 1 3,
         obs ''total_tests_viral'' ''R'' 0 10, obs ''total_tests_viral'' ''R'' 1 20]\<rparr>"

text \<open>The local variable \<^verbatim>\<open>input_long\<close> of \<^verbatim>\<open>run\<close>.\<close>

abbreviation input_long :: "MultiRegionTimeseriesDataset \<Rightarrow> Method list \<Rightarrow> observation list" where
  "input_long metrics_in methods \<equiv> timeseries_long metrics_in (ts_value_cols methods)"

text \<open>
  One method and two regions: A is reported on days 0 to 3, B on days 0 and 1 only.
\<close>

definition stale_methods :: "Method list" where
  "stale_methods =
     [\<lparr>name = ''method1'', numerator = ''positive_tests'', denominator = ''total_tests''\<rparr>]"

definition stale_input :: MultiRegionTimeseriesDataset where
  "stale_input =
     \<lparr>data_columns = [''positive_tests'', ''total_tests''],
      observations =
        [obs ''positive_tests'' ''A'' 0 1, obs ''positive_tests'' ''A'' 1 2,
         obs ''positive_tests'' ''A'' 2 4, obs ''positive_tests'' ''A'' 3 9,
         obs ''total_tests'' ''A'' 0 10, obs ''total_tests'' ''A'' 1 20,
         obs ''total_tests'' ''A'' 2 40, obs ''total_tests'' ''A'' 3 50,
         obs ''positive_tests'' ''B'' 0 1, obs ''positive_tests'' ''B'' 1 2,
         obs ''total_tests'' ''B'' 0 10, obs ''total_tests'' ''B'' 1 20]\<rparr>"

text \<open>A region whose denominator does not move while the numerator does.\<close>

definition infinity_input :: MultiRegionTimeseriesDataset where
  "infinity_input =
     \<lparr>data_columns = [''positive_tests'', ''total_tests''],
      observations =
        [obs ''positive_tests'' ''R'' 0 1, obs ''positive_tests'' ''R'' 1 6,
         obs ''total_tests'' ''R'' 0 10, obs ''total_tests'' ''R'' 1 10]\<rparr>"

text \<open>The observations of one region.\<close>

definition region_observations :: "MultiRegionTimeseriesDataset \<Rightarrow> location \<Rightarrow> observation list" where
  "region_observations ds Y = filter (\<lambda>ob. location_id ob = Y) (observations ds)"

text \<open>
  Two variations of \<open>stale_input\<close> that leave region B as it is: one without region A,
  one with other data for region A over the same span of dates.
\<close>

definition region_B_input :: MultiRegionTimeseriesDataset where
  "region_B_input =
     \<lparr>data_columns = [''positive_tests'', ''total_tests''],
      observations =
        [obs ''positive_tests'' ''B'' 0 1, obs ''positive_tests'' ''B'' 1 2,
         obs ''total_tests'' ''B'' 0 10, obs ''total_tests'' ''B'' 1 20]\<rparr>"

definition corrupted_input :: MultiRegionTimeseriesDataset where
  "corrupted_input =
     \<lparr>data_columns = [''positive_tests'', ''total_tests''],
      observations =
        [obs ''positive_tests'' ''A'' 0 5, obs ''positive_tests'' ''A'' 3 50,
         obs ''total_tests'' ''A'' 0 7,
         obs ''positive_tests'' ''B'' 0 1, obs ''positive_tests'' ''B'' 1 2,
         obs ''total_tests'' ''B'' 0 10, obs ''total_tests'' ''B'' 1 20]\<rparr>"

section \<open>Float arithmetic\<close>

lemma fsub_NaN_left [simp]: "fsub NaN y = NaN"
  by (simp add: fsub_def)

lemma fsub_NaN_right [simp]: "fsub x NaN = NaN"
  by (simp add: fsub_def)

lemma fsub_Fin [simp]: "fsub (Fin a) (Fin b) = Fin (a - b)"
  by (simp add: fsub_def)

lemma fdiv_NaN_left [simp]: "fdiv NaN y = NaN"
  by (simp add: fdiv_def)

lemma fdiv_NaN_right [simp]: "fdiv x NaN = NaN"
  by (simp add: fdiv_def)

lemma fdiv_Fin [simp]:
  "fdiv (Fin a) (Fin b) =
     (if b = 0 then (if a = 0 then NaN else if 0 < a then PInf else NInf)
      else if a = 0 then (if b < 0 then NZero else Fin 0)
      else Fin (a / b))"
  by (auto simp: fdiv_def)

lemma fdiv_by_positive_zero [simp]:
  "fdiv NZero (Fin 0) = NaN" "fdiv PInf (Fin 0) = PInf" "fdiv NInf (Fin 0) = NInf"
  by (simp_all add: fdiv_def)

lemma fdiv_by_negative_zero [simp]:
  "fdiv (Fin a) NZero = (if a = 0 then NaN else if 0 < a then NInf else PInf)"
  "fdiv NZero NZero = NaN" "fdiv PInf NZero = NInf" "fdiv NInf NZero = PInf"
  by (auto simp: fdiv_def)

section \<open>Method.calculate: the ratio of two delta rows\<close>

lemma map_of_field_rows: "map_of (field_rows rs f) l = map_of rs (f, l)"
  unfolding field_rows_def by (induction rs) auto

lemma field_rows_empty_iff: "field_rows rs f = [] \<longleftrightarrow> f \<notin> fst ` fst ` set rs"
  by (force simp: field_rows_def filter_empty_conv image_iff)

lemma loc_field_Inr:
  "loc_field df f = Inr a \<Longrightarrow> a = \<lparr>columns = columns df, rows = field_rows (rows df) f\<rparr>"
  by (auto simp: loc_field_def Let_def split: if_splits)

lemma loc_field_Inl_iff:
  "(\<exists>e. loc_field df f = Inl e) \<longleftrightarrow> f \<notin> fst ` fst ` set (rows df)"
  by (auto simp: loc_field_def Let_def field_rows_empty_iff)

lemma loc_field_error: "loc_field df f = Inl e \<Longrightarrow> e = KeyError"
  by (auto simp: loc_field_def Let_def split: if_splits)

lemma map_of_tabulate:
  "map_of (map (\<lambda>k. (k, g k)) ks) k = (if k \<in> set ks then Some (g k) else None)"
  by (induction ks) auto

lemma map_of_frame_div:
  "map_of (rows (frame_div a b)) l =
     (if l \<in> fst ` set (rows a) \<union> fst ` set (rows b)
      then Some (case (map_of (rows a) l, map_of (rows b) l) of
                   (Some x, Some y) \<Rightarrow> map2 fdiv x y
                 | _ \<Rightarrow> replicate (length (columns a)) NaN)
      else None)"
  by (simp add: frame_div_def map_of_tabulate)

text \<open>
  C3, as the claim states it, fails: a numerator delta of 5 over a denominator delta of
  exactly 0 gives positive infinity, not a missing ratio.
\<close>

theorem calculate_zero_denominator_counterexample:
  "calculate \<lparr>name = ''method'', numerator = ''positive_tests'', denominator = ''total_tests''\<rparr>
     \<lparr>columns = [0],
      rows = [((''positive_tests'', ''R''), [Fin 5]), ((''total_tests'', ''R''), [Fin 0])]\<rparr>
   = Inr \<lparr>columns = [0], rows = [(''R'', [PInf])]\<rparr>"
  by code_simp

text \<open>
  C3, amended: in \<^verbatim>\<open>Method.calculate\<close>, for a region with a numerator row and a
  denominator row, every cell of the result is the float quotient of the numerator
  delta by the denominator delta, and no error is raised. A missing denominator delta
  gives a missing ratio. A denominator delta of exactly 0 gives a missing ratio only
  when the numerator delta is 0 (of either sign) or missing; otherwise the ratio is
  an infinity. For a denominator of \<^verbatim>\<open>+0.0\<close> it has the sign of the numerator delta:
  positive infinity for a positive (or positively infinite) numerator, negative
  infinity for a negative (or negatively infinite) one. For a denominator of
  \<^verbatim>\<open>-0.0\<close> it has the opposite sign.
\<close>

theorem calculate_zero_denominator:
  assumes num: "map_of (rows delta_df) (numerator m, l) = Some xs"
      and den: "map_of (rows delta_df) (denominator m, l) = Some ys"
      and len: "length xs = length ys"
      and i: "i < length xs"
  shows "\<exists>out r. calculate m delta_df = Inr out \<and> map_of (rows out) l = Some r \<and>
           length r = length xs \<and>
           r ! i = fdiv (xs ! i) (ys ! i) \<and>
           (ys ! i = NaN \<longrightarrow> r ! i = NaN) \<and>
           (ys ! i = Fin 0 \<longrightarrow>
              (xs ! i = NaN \<longrightarrow> r ! i = NaN) \<and>
              (xs ! i = Fin 0 \<or> xs ! i = NZero \<longrightarrow> r ! i = NaN) \<and>
              (\<forall>a. xs ! i = Fin a \<and> 0 < a \<longrightarrow> r ! i = PInf) \<and>
              (\<forall>a. xs ! i = Fin a \<and> a < 0 \<longrightarrow> r ! i = NInf) \<and>
              (xs ! i = PInf \<longrightarrow> r ! i = PInf) \<and>
              (xs ! i = NInf \<longrightarrow> r ! i = NInf)) \<and>
           (ys ! i = NZero \<longrightarrow>
              (xs ! i = NaN \<longrightarrow> r ! i = NaN) \<and>
              (xs ! i = Fin 0 \<or> xs ! i = NZero \<longrightarrow> r ! i = NaN) \<and>
              (\<forall>a. xs ! i = Fin a \<and> 0 < a \<longrightarrow> r ! i = NInf) \<and>
              (\<forall>a. xs ! i = Fin a \<and> a < 0 \<longrightarrow> r ! i = PInf) \<and>
              (xs ! i = PInf \<longrightarrow> r ! i = NInf) \<and>
              (xs ! i = NInf \<longrightarrow> r ! i = PInf))"
proof -
  from num have "(numerator m, l) \<in> fst ` set (rows delta_df)"
    by (metis map_of_eq_None_iff option.distinct(1))
  then have n_in: "numerator m \<in> fst ` fst ` set (rows delta_df)"
    by (metis fst_conv image_eqI)
  from den have "(denominator m, l) \<in> fst ` set (rows delta_df)"
    by (metis map_of_eq_None_iff option.distinct(1))
  then have d_in: "denominator m \<in> fst ` fst ` set (rows delta_df)"
    by (metis fst_conv image_eqI)
  from n_in obtain n where n: "loc_field delta_df (numerator m) = Inr n"
    using loc_field_Inl_iff [of delta_df "numerator m"]
    by (cases "loc_field delta_df (numerator m)") auto
  from d_in obtain d where d: "loc_field delta_df (denominator m) = Inr d"
    using loc_field_Inl_iff [of delta_df "denominator m"]
    by (cases "loc_field delta_df (denominator m)") auto
  have mn: "map_of (rows n) l = Some xs"
    using loc_field_Inr [OF n] num by (simp add: map_of_field_rows)
  have md: "map_of (rows d) l = Some ys"
    using loc_field_Inr [OF d] den by (simp add: map_of_field_rows)
  have l_in: "l \<in> fst ` set (rows n)"
    using mn by (metis map_of_eq_None_iff option.distinct(1))
  have out: "calculate m delta_df = Inr (frame_div n d)"
    by (simp add: calculate_def n d)
  have row: "map_of (rows (frame_div n d)) l = Some (map2 fdiv xs ys)"
    using l_in by (simp add: map_of_frame_div mn md)
  have cell: "map2 fdiv xs ys ! i = fdiv (xs ! i) (ys ! i)"
    using i len by simp
  show ?thesis
    using out row cell len by auto
qed

theorem calculate_zero_denominator_witness:
  "\<exists>out r.
     calculate \<lparr>name = ''method'', numerator = ''positive_tests'', denominator = ''total_tests''\<rparr>
       \<lparr>columns = [0, 1, 2, 3],
        rows = [((''positive_tests'', ''R''), [Fin 0, Fin (- 3), Fin 5, Fin (- 5)]),
                ((''total_tests'', ''R''), [Fin 0, Fin 0, NZero, NZero])]\<rparr> = Inr out \<and>
     map_of (rows out) ''R'' = Some r \<and>
     r ! 0 = NaN \<and> r ! 1 = NInf \<and> r ! 2 = NInf \<and> r ! 3 = PInf"
proof -
  let ?m = "\<lparr>name = ''method'', numerator = ''positive_tests'', denominator = ''total_tests''\<rparr>"
  let ?xs = "[Fin 0, Fin (- 3), Fin 5, Fin (- 5)]"
  let ?ys = "[Fin 0, Fin 0, NZero, NZero]"
  let ?df = "\<lparr>columns = [0, 1, 2, 3],
               rows = [((''positive_tests'', ''R''), ?xs), ((''total_tests'', ''R''), ?ys)]\<rparr>"
  have n: "map_of (rows ?df) (numerator ?m, ''R'') = Some ?xs" by simp
  have d: "map_of (rows ?df) (denominator ?m, ''R'') = Some ?ys" by simp
  have l: "length ?xs = length ?ys" by simp
  from calculate_zero_denominator [OF n d l, of 0] calculate_zero_denominator [OF n d l, of 1]
    calculate_zero_denominator [OF n d l, of 2] calculate_zero_denominator [OF n d l, of 3]
  show ?thesis by auto
qed

section \<open>The dense table and the delta table\<close>

lemma rows_unstack_reindex:
  "rows (unstack_reindex long axis) =
     map (\<lambda>k. (k, map (cell_at long k) axis))
         (sort (remdups (map (\<lambda>ob. (variable ob, location_id ob)) long)))"
  by (simp add: unstack_reindex_def)

lemma rows_diff_df:
  "rows (diff_df long p) =
     map (\<lambda>k. (k, diff_cells p (map (cell_at long k) (input_date_range long))))
         (sort (remdups (map (\<lambda>ob. (variable ob, location_id ob)) long)))"
  by (simp add: diff_df_def diff_frame_def input_wide_def rows_unstack_reindex)

lemma map_of_input_wide:
  "map_of (rows (input_wide long)) k =
     (if k \<in> (\<lambda>ob. (variable ob, location_id ob)) ` set long
      then Some (map (cell_at long k) (input_date_range long)) else None)"
  by (simp add: input_wide_def rows_unstack_reindex map_of_tabulate)

lemma map_of_diff_df:
  "map_of (rows (diff_df long p)) k =
     (if k \<in> (\<lambda>ob. (variable ob, location_id ob)) ` set long
      then Some (diff_cells p (map (cell_at long k) (input_date_range long))) else None)"
  by (simp add: rows_diff_df map_of_tabulate)

lemma length_diff_cells [simp]: "length (diff_cells p xs) = length xs"
  by (simp add: diff_cells_def)

lemma nth_diff_cells:
  "i < length xs \<Longrightarrow>
     diff_cells p xs ! i =
       (if 0 \<le> int i - p \<and> int i - p < int (length xs)
        then fsub (xs ! i) (xs ! nat (int i - p)) else NaN)"
  by (simp add: diff_cells_def Let_def)

lemma set_input_date_range:
  "set (input_date_range long) = {start_date long..end_date long}"
  by (simp add: input_date_range_def date_range_def)

lemma length_input_date_range:
  "length (input_date_range long) = nat (end_date long - start_date long + 1)"
  by (simp add: input_date_range_def date_range_def)

lemma nth_input_date_range:
  "i < length (input_date_range long) \<Longrightarrow> input_date_range long ! i = start_date long + int i"
  by (simp add: input_date_range_def date_range_def)

lemma delta_cell:
  assumes d: "d \<in> set (input_date_range long)"
  shows "diff_cells p (map (cell_at long k) (input_date_range long)) ! nat (d - start_date long) =
           (if d - p \<in> set (input_date_range long)
            then fsub (cell_at long k d) (cell_at long k (d - p)) else NaN)"
proof -
  define s where "s = start_date long"
  define e where "e = end_date long"
  define w where "w = map (cell_at long k) (input_date_range long)"
  define i where "i = nat (d - s)"
  define j where "j = int i - p"
  have len: "length w = nat (e - s + 1)"
    by (simp add: w_def length_input_date_range s_def e_def)
  have nth: "w ! n = cell_at long k (s + int n)" if "n < length w" for n
    using that by (simp add: w_def nth_input_date_range s_def)
  from d have sd: "s \<le> d" and de: "d \<le> e"
    by (simp_all add: set_input_date_range s_def e_def)
  have i: "i < length w" using sd de by (simp add: len i_def)
  have wi: "w ! i = cell_at long k d"
    using nth [OF i] sd by (simp add: i_def)
  have nd: "diff_cells p w ! i =
      (if 0 \<le> j \<and> j < int (length w) then fsub (w ! i) (w ! nat j) else NaN)"
    unfolding j_def by (rule nth_diff_cells) (rule i)
  have mem: "d - p \<in> set (input_date_range long) \<longleftrightarrow> 0 \<le> j \<and> j < int (length w)"
    using sd de by (auto simp: set_input_date_range s_def [symmetric] e_def [symmetric] len j_def i_def)
  have wj: "w ! nat j = cell_at long k (d - p)" if "0 \<le> j" "j < int (length w)"
  proof -
    have "nat j < length w" using that by simp
    from nth [OF this] have "w ! nat j = cell_at long k (s + int (nat j))" .
    moreover have "s + int (nat j) = d - p" using that sd by (simp add: j_def i_def)
    ultimately show ?thesis by simp
  qed
  have "diff_cells p w ! i =
      (if d - p \<in> set (input_date_range long)
       then fsub (cell_at long k d) (cell_at long k (d - p)) else NaN)"
  proof (cases "0 \<le> j \<and> j < int (length w)")
    case True
    then have in_range: "d - p \<in> set (input_date_range long)" using mem by simp
    from True have "diff_cells p w ! i = fsub (w ! i) (w ! nat j)" using nd by auto
    also have "\<dots> = fsub (cell_at long k d) (cell_at long k (d - p))"
      using True wi wj by simp
    finally show ?thesis using in_range by simp
  next
    case False
    then have out_of_range: "d - p \<notin> set (input_date_range long)" using mem by auto
    from False have "diff_cells p w ! i = NaN" using nd by auto
    then show ?thesis using out_of_range by simp
  qed
  then show ?thesis by (simp add: w_def i_def s_def)
qed

text \<open>
  C5: in the delta table of \<^verbatim>\<open>run\<close>, the row of a \<open>(variable, region)\<close> pair \<open>k\<close>
  holds, at every date \<open>d\<close> of the shared axis, the cumulative value at \<open>d\<close> minus the
  cumulative value at \<open>d - diff_days\<close>; it is the plain difference when both are
  finite (negative differences included, nothing is clamped) and it is missing when
  either endpoint is missing or \<open>d - diff_days\<close> is off the axis. Cumulative values
  10, 15, 25, 40 on consecutive days with \<open>diff_days = 1\<close> give missing, 5, 10, 15.
\<close>

theorem delta_computation:
  "(k \<in> (\<lambda>ob. (variable ob, location_id ob)) ` set long \<and> d \<in> set (input_date_range long) \<longrightarrow>
     (\<exists>w r. map_of (rows (input_wide long)) k = Some w \<and>
            map_of (rows (diff_df long p)) k = Some r \<and>
            length w = length (input_date_range long) \<and>
            length r = length (input_date_range long) \<and>
            w ! nat (d - start_date long) = cell_at long k d \<and>
            r ! nat (d - start_date long) =
              (if d - p \<in> set (input_date_range long)
               then fsub (cell_at long k d) (cell_at long k (d - p)) else NaN) \<and>
            (\<forall>a b. d - p \<in> set (input_date_range long) \<and> cell_at long k d = Fin a \<and>
                   cell_at long k (d - p) = Fin b \<longrightarrow>
                   r ! nat (d - start_date long) = Fin (a - b)) \<and>
            (d - p \<notin> set (input_date_range long) \<or> cell_at long k d = NaN \<or>
             cell_at long k (d - p) = NaN \<longrightarrow>
                   r ! nat (d - start_date long) = NaN))) \<and>
   rows (diff_df [\<lparr>variable = ''cases'', location_id = ''R'', date = 0, val = Fin 10\<rparr>,
                  \<lparr>variable = ''cases'', location_id = ''R'', date = 1, val = Fin 15\<rparr>,
                  \<lparr>variable = ''cases'', location_id = ''R'', date = 2, val = Fin 25\<rparr>,
                  \<lparr>variable = ''cases'', location_id = ''R'', date = 3, val = Fin 40\<rparr>] 1)
     = [((''cases'', ''R''), [NaN, Fin 5, Fin 10, Fin 15])]"
proof (intro conjI impI)
  assume a: "k \<in> (\<lambda>ob. (variable ob, location_id ob)) ` set long \<and> d \<in> set (input_date_range long)"
  then have k: "k \<in> (\<lambda>ob. (variable ob, location_id ob)) ` set long"
    and d: "d \<in> set (input_date_range long)" by simp_all
  let ?w = "map (cell_at long k) (input_date_range long)"
  let ?r = "diff_cells p ?w"
  let ?i = "nat (d - start_date long)"
  have i: "?i < length (input_date_range long)"
    using d by (simp add: set_input_date_range length_input_date_range)
  have wi: "?w ! ?i = cell_at long k d"
    using i d by (simp add: nth_input_date_range set_input_date_range)
  note ri = delta_cell [OF d, of p k]
  show "\<exists>w r. map_of (rows (input_wide long)) k = Some w \<and>
            map_of (rows (diff_df long p)) k = Some r \<and>
            length w = length (input_date_range long) \<and>
            length r = length (input_date_range long) \<and>
            w ! nat (d - start_date long) = cell_at long k d \<and>
            r ! nat (d - start_date long) =
              (if d - p \<in> set (input_date_range long)
               then fsub (cell_at long k d) (cell_at long k (d - p)) else NaN) \<and>
            (\<forall>a b. d - p \<in> set (input_date_range long) \<and> cell_at long k d = Fin a \<and>
                   cell_at long k (d - p) = Fin b \<longrightarrow>
                   r ! nat (d - start_date long) = Fin (a - b)) \<and>
            (d - p \<notin> set (input_date_range long) \<or> cell_at long k d = NaN \<or>
             cell_at long k (d - p) = NaN \<longrightarrow>
                   r ! nat (d - start_date long) = NaN)"
    apply (rule exI [of _ ?w], rule exI [of _ ?r])
    using k wi ri by (auto simp: map_of_input_wide map_of_diff_df fsub_NaN_right)
next
  show "rows (diff_df [\<lparr>variable = ''cases'', location_id = ''R'', date = 0, val = Fin 10\<rparr>,
                  \<lparr>variable = ''cases'', location_id = ''R'', date = 1, val = Fin 15\<rparr>,
                  \<lparr>variable = ''cases'', location_id = ''R'', date = 2, val = Fin 25\<rparr>,
                  \<lparr>variable = ''cases'', location_id = ''R'', date = 3, val = Fin 40\<rparr>] 1)
     = [((''cases'', ''R''), [NaN, Fin 5, Fin 10, Fin 15])]"
    by code_simp
qed

theorem delta_computation_witness:
  "(''cases'', ''R'') \<in> (\<lambda>ob. (variable ob, location_id ob)) ` set delta_example \<and>
   1 \<in> set (input_date_range delta_example) \<and>
   3 \<in> set (input_date_range delta_example) \<and>
   (\<exists>r. map_of (rows (diff_df delta_example 1)) (''cases'', ''R'') = Some r \<and>
        length r = 4 \<and> r ! 1 = Fin (- 2) \<and> r ! 3 = NaN)"
proof -
  let ?k = "(''cases'', ''R'')"
  have k: "?k \<in> (\<lambda>ob. (variable ob, location_id ob)) ` set delta_example"
    by (simp add: delta_example_def)
  have s: "start_date delta_example = 0" by code_simp
  have e: "end_date delta_example = 3" by code_simp
  have rng: "set (input_date_range delta_example) = {0..3}"
    by (simp add: set_input_date_range s e)
  have len: "length (input_date_range delta_example) = 4"
    by (simp add: length_input_date_range s e)
  have c0: "cell_at delta_example ?k 0 = Fin 10" by code_simp
  have c1: "cell_at delta_example ?k 1 = Fin 8" by code_simp
  have c2: "cell_at delta_example ?k 2 = NaN" by code_simp
  have c3: "cell_at delta_example ?k 3 = Fin 12" by code_simp
  have d1: "1 \<in> set (input_date_range delta_example)" by (simp add: rng)
  have d3: "3 \<in> set (input_date_range delta_example)" by (simp add: rng)
  from delta_computation [of ?k delta_example 1 1] k d1
  obtain r1 where r1: "map_of (rows (diff_df delta_example 1)) ?k = Some r1"
    "length r1 = 4" "r1 ! 1 = Fin (- 2)"
    by (auto simp: rng s len c0 c1)
  from delta_computation [of ?k delta_example 3 1] k d3
  obtain r3 where r3: "map_of (rows (diff_df delta_example 1)) ?k = Some r3" "r3 ! 3 = NaN"
    by (auto simp: rng s len c2 c3)
  from r1 r3 have "r3 = r1" by simp
  with r1 r3 k d1 d3 show ?thesis by blast
qed

section \<open>Selection: the code at two concrete inputs\<close>

text \<open>
  C1 at a concrete input: with the registry \<open>priority_methods\<close>, both methods have a
  value for region R on day 1, inside the recency window. The frame of candidates is
  sorted by method name, and \<^verbatim>\<open>groupby(...).first()\<close> takes the rows in that order, so
  the provenance names the method at registry position 1, not the one at position 0.
\<close>

theorem run_priority_evaluation:
  "run priority_input priority_methods 1 14 =
     Inr \<lparr>all_methods_timeseries =
            \<lparr>columns = [0, 1],
             rows = [((''R'', ''positiveCasesViral_totalTestsViral''), [NaN, Fin (1 / 10)]),
                     ((''R'', ''positiveTestsViral_totalTestsViral''), [NaN, Fin (1 / 5)])]\<rparr>,
          test_positivity =
            \<lparr>timeseries_df = [(''R'', 1, Fin (1 / 10))],
             provenance = [((''R'', ''positivity''), ''positiveCasesViral_totalTestsViral'')]\<rparr>\<rparr>"
  by code_simp

text \<open>
  C2 at a concrete input: region R has two recent-viable methods; the provenance names
  \<open>method1\<close>, whose candidate series has a value on day 3 only, and the output series
  holds the values of \<open>method2\<close> on days 1 and 2 and the value of \<open>method1\<close> on day 3.
\<close>

theorem run_mixture_evaluation:
  "run mixture_input mixture_methods 1 14 =
     Inr \<lparr>all_methods_timeseries =
            \<lparr>columns = [0, 1, 2, 3],
             rows = [((''R'', ''method1''), [NaN, NaN, NaN, Fin (1 / 5)]),
                     ((''R'', ''method2''), [NaN, Fin (1 / 10), Fin (1 / 10), Fin (1 / 2)])]\<rparr>,
          test_positivity =
            \<lparr>timeseries_df = [(''R'', 1, Fin (1 / 10)), (''R'', 2, Fin (1 / 10)), (''R'', 3, Fin (1 / 5))],
             provenance = [((''R'', ''positivity''), ''method1'')]\<rparr>\<rparr>"
  by code_simp

section \<open>When the run raises\<close>

lemma set_timeseries_long:
  "set (timeseries_long ds cols) = {ob \<in> set (observations ds). variable ob \<in> set cols}"
  by (auto simp: timeseries_long_def)

lemma set_ts_value_cols: "set (ts_value_cols methods) = set (method_fields methods)"
  by (simp add: ts_value_cols_def)

lemma distinct_ts_value_cols: "distinct (ts_value_cols methods)"
  by (simp add: ts_value_cols_def)

lemma keys_diff_df:
  "fst ` set (rows (diff_df long p)) = (\<lambda>ob. (variable ob, location_id ob)) ` set long"
  by (force simp: rows_diff_df image_iff)

lemma fields_diff_df: "fst ` fst ` set (rows (diff_df long p)) = variable ` set long"
  by (force simp: keys_diff_df image_iff)

lemma columns_diff_df: "columns (diff_df long p) = input_date_range long"
  by (simp add: diff_df_def diff_frame_def input_wide_def unstack_reindex_def)

lemma calculate_Inr: "calculate m df = Inr out \<Longrightarrow> out = method_frame df m"
  by (auto simp: calculate_def method_frame_def split: sum.splits dest!: loc_field_Inr)

lemma calculate_Inr_iff:
  "(\<exists>out. calculate m df = Inr out) \<longleftrightarrow>
     numerator m \<in> fst ` fst ` set (rows df) \<and> denominator m \<in> fst ` fst ` set (rows df)"
proof -
  have a: "(\<exists>a. loc_field df f = Inr a) \<longleftrightarrow> f \<in> fst ` fst ` set (rows df)" for f
    using loc_field_Inl_iff [of df f] by (cases "loc_field df f") auto
  show ?thesis
    using a [of "numerator m"] a [of "denominator m"]
    by (auto simp: calculate_def split: sum.splits)
qed

lemma calculate_error: "calculate m df = Inl e \<Longrightarrow> e = KeyError"
  by (auto simp: calculate_def split: sum.splits dest: loc_field_error)

lemma calculate_all_Inr:
  "calculate_all ms df = Inr fs \<Longrightarrow> fs = map (\<lambda>m. (name m, method_frame df m)) ms"
  by (induction ms arbitrary: fs) (auto split: sum.splits dest: calculate_Inr)

lemma calculate_all_Inr_iff:
  "(\<exists>fs. calculate_all ms df = Inr fs) \<longleftrightarrow>
     (\<forall>m \<in> set ms. numerator m \<in> fst ` fst ` set (rows df) \<and>
                    denominator m \<in> fst ` fst ` set (rows df))"
proof (induction ms)
  case Nil
  show ?case by simp
next
  case (Cons m ms)
  show ?case
    using Cons.IH calculate_Inr_iff [of m df]
    by (auto split: sum.splits)
qed

lemma calculate_all_error: "calculate_all ms df = Inl e \<Longrightarrow> e = KeyError"
  by (induction ms arbitrary: e) (auto split: sum.splits dest: calculate_error)

lemma set_method_fields:
  "set (method_fields ms) = numerator ` set ms \<union> denominator ` set ms"
  by (auto simp: method_fields_def)

lemma calculate_all_diff_df_iff:
  "(\<exists>fs. calculate_all methods
            (diff_df (timeseries_long metrics_in (ts_value_cols methods)) diff_days) = Inr fs) \<longleftrightarrow>
     (\<forall>f \<in> set (method_fields methods). f \<in> variable ` set (observations metrics_in))"
proof -
  let ?long = "timeseries_long metrics_in (ts_value_cols methods)"
  have fields: "variable ` set ?long = variable ` set (observations metrics_in) \<inter> set (method_fields methods)"
    by (auto simp: set_timeseries_long set_ts_value_cols)
  show ?thesis
    unfolding calculate_all_Inr_iff fields_diff_df fields set_method_fields by auto
qed

lemma run_Inr_iff:
  "(\<exists>res. run metrics_in methods diff_days recent_days = Inr res) \<longleftrightarrow> schema_ok metrics_in methods"
proof -
  let ?long = "timeseries_long metrics_in (ts_value_cols methods)"
  have fields: "variable ` set ?long = variable ` set (observations metrics_in) \<inter> set (method_fields methods)"
    by (auto simp: set_timeseries_long set_ts_value_cols)
  note calc = calculate_all_diff_df_iff [of methods metrics_in diff_days]
  have nonempty: "?long \<noteq> []"
    if "methods \<noteq> []" "\<forall>f \<in> set (method_fields methods). f \<in> variable ` set (observations metrics_in)"
  proof -
    from that(1) obtain m where "m \<in> set methods" by (cases methods) auto
    then have "numerator m \<in> set (method_fields methods)" by (auto simp: set_method_fields)
    with that(2) have "numerator m \<in> variable ` set ?long" unfolding fields by auto
    then show ?thesis by auto
  qed
  show ?thesis
  proof
    assume "\<exists>res. run metrics_in methods diff_days recent_days = Inr res"
    then show "schema_ok metrics_in methods"
      using calc
      by (auto simp: run_def run_cols_def run_long_def schema_ok_def Let_def set_ts_value_cols
               split: if_splits sum.splits)
  next
    assume ok: "schema_ok metrics_in methods"
    then obtain fs where "calculate_all methods (diff_df ?long diff_days) = Inr fs"
      using calc by (auto simp: schema_ok_def)
    then show "\<exists>res. run metrics_in methods diff_days recent_days = Inr res"
      using ok nonempty
      by (auto simp: run_def run_cols_def run_long_def schema_ok_def Let_def set_ts_value_cols)
  qed
qed

lemma run_Inr:
  assumes "run metrics_in methods diff_days recent_days = Inr res"
  shows "res = assemble (timeseries_long metrics_in (ts_value_cols methods)) recent_days
                 (all_wide (timeseries_long metrics_in (ts_value_cols methods))
                    (map (\<lambda>m. (name m, method_frame (diff_df (timeseries_long metrics_in (ts_value_cols methods)) diff_days) m)) methods))"
  using assms
  by (auto simp: run_def run_cols_def run_long_def Let_def split: if_splits sum.splits dest: calculate_all_Inr)

lemma obs_key_variable: "obs_key a = obs_key b \<Longrightarrow> variable a = variable b"
  by (simp add: obs_key_def)

lemma distinct_timeseries_long:
  assumes "distinct (map obs_key (observations ds))"
  shows "distinct cols \<Longrightarrow> distinct (map obs_key (timeseries_long ds cols))"
proof (induction cols)
  case Nil
  show ?case by (simp add: timeseries_long_def)
next
  case (Cons c cols)
  have split: "timeseries_long ds (c # cols) =
      filter (\<lambda>ob. variable ob = c) (observations ds) @ timeseries_long ds cols"
    by (simp add: timeseries_long_def)
  have d1: "distinct (map obs_key (filter (\<lambda>ob. variable ob = c) (observations ds)))"
    using assms by (rule distinct_map_filter)
  have d2: "distinct (map obs_key (timeseries_long ds cols))"
    using Cons by simp
  have disj: "obs_key ` set (filter (\<lambda>ob. variable ob = c) (observations ds)) \<inter>
              obs_key ` set (timeseries_long ds cols) = {}"
  proof -
    have False if "a \<in> set (observations ds)" "variable a = c"
        "b \<in> set (timeseries_long ds cols)" "obs_key a = obs_key b" for a b
    proof -
      from that(3) have "variable b \<in> set cols" by (simp add: set_timeseries_long)
      moreover from that(2,4) have "variable b = c" using obs_key_variable by metis
      ultimately show False using Cons.prems by simp
    qed
    then have "\<forall>a \<in> set (filter (\<lambda>ob. variable ob = c) (observations ds)).
               \<forall>b \<in> set (timeseries_long ds cols). obs_key a \<noteq> obs_key b"
      by auto
    then show ?thesis by (auto simp: image_iff) metis
  qed
  show ?case
    unfolding split using d1 d2 disj by simp
qed

lemma run_AssertionError_iff:
  "run metrics_in methods diff_days recent_days = Inl AssertionError \<longleftrightarrow>
     \<not> set (method_fields methods) \<subseteq> set (data_columns metrics_in)"
  by (auto simp: run_def run_cols_def run_long_def Let_def set_ts_value_cols
           split: if_splits sum.splits dest: calculate_all_error)

lemma run_no_observation:
  assumes "set (method_fields methods) \<subseteq> set (data_columns metrics_in)"
      and "\<forall>ob \<in> set (observations metrics_in). variable ob \<notin> set (method_fields methods)"
  shows "run metrics_in methods diff_days recent_days = Inl ValueError"
proof -
  have "set (timeseries_long metrics_in (ts_value_cols methods)) = {}"
    using assms(2) by (auto simp: set_timeseries_long set_ts_value_cols)
  then have "timeseries_long metrics_in (ts_value_cols methods) = []" by simp
  then show ?thesis
    using assms(1) by (simp add: run_def run_cols_def run_long_def set_ts_value_cols)
qed

lemma run_KeyError:
  assumes cols: "set (method_fields methods) \<subseteq> set (data_columns metrics_in)"
      and some: "\<exists>ob \<in> set (observations metrics_in). variable ob \<in> set (method_fields methods)"
      and uniq: "distinct (map obs_key (observations metrics_in))"
      and miss: "\<exists>f \<in> set (method_fields methods). f \<notin> variable ` set (observations metrics_in)"
  shows "run metrics_in methods diff_days recent_days = Inl KeyError"
proof -
  let ?long = "timeseries_long metrics_in (ts_value_cols methods)"
  have ne: "?long \<noteq> []"
  proof -
    from some have "set ?long \<noteq> {}" by (auto simp: set_timeseries_long set_ts_value_cols)
    then show ?thesis by auto
  qed
  have d: "distinct (map obs_key ?long)"
    using uniq distinct_ts_value_cols by (rule distinct_timeseries_long)
  have "\<not> (\<exists>fs. calculate_all methods (diff_df ?long diff_days) = Inr fs)"
    unfolding calculate_all_diff_df_iff using miss by blast
  then obtain e where e: "calculate_all methods (diff_df ?long diff_days) = Inl e"
    by (cases "calculate_all methods (diff_df ?long diff_days)") auto
  then have "e = KeyError" by (rule calculate_all_error)
  with e show ?thesis
    using cols ne d by (simp add: run_def run_cols_def run_long_def Let_def set_ts_value_cols)
qed

text \<open>
  C8, as the claim states it, fails: with an empty registry no field is needed, and
  \<^verbatim>\<open>run\<close> still raises (\<^verbatim>\<open>ValueError\<close>, from \<^verbatim>\<open>pd.date_range\<close> on an empty frame).
\<close>

theorem run_failure_counterexample:
  "method_fields [] = [] \<and>
   run \<lparr>data_columns = [], observations = []\<rparr> [] 7 14 = Inl ValueError"
  by code_simp

text \<open>
  C8, amended: for a registry that is not empty and has no name twice, and an input
  with at most one value per \<open>(variable, location_id, date)\<close> whose observations are of
  its columns, \<^verbatim>\<open>run\<close> raises exactly when some needed field (a numerator or a
  denominator) is absent from every observation, and returns a complete result
  otherwise. The error is \<^verbatim>\<open>AssertionError\<close> exactly when a needed field is not a
  column of the input; when all are columns it is \<^verbatim>\<open>KeyError\<close> if some needed field
  has an observation, and \<^verbatim>\<open>ValueError\<close> if none has.
\<close>

theorem run_failure_iff:
  assumes ne: "methods \<noteq> []"
      and names: "distinct (map name methods)"
      and uniq: "distinct (map obs_key (observations metrics_in))"
      and wf: "variable ` set (observations metrics_in) \<subseteq> set (data_columns metrics_in)"
  shows "((\<exists>e. run metrics_in methods diff_days recent_days = Inl e) \<longleftrightarrow>
            (\<exists>f \<in> set (method_fields methods). f \<notin> variable ` set (observations metrics_in))) \<and>
         ((\<exists>res. run metrics_in methods diff_days recent_days = Inr res) \<longleftrightarrow>
            (\<forall>f \<in> set (method_fields methods). f \<in> variable ` set (observations metrics_in))) \<and>
         (run metrics_in methods diff_days recent_days = Inl AssertionError \<longleftrightarrow>
            (\<exists>f \<in> set (method_fields methods). f \<notin> set (data_columns metrics_in))) \<and>
         (set (method_fields methods) \<subseteq> set (data_columns metrics_in) \<and>
          (\<exists>f \<in> set (method_fields methods). f \<notin> variable ` set (observations metrics_in)) \<longrightarrow>
            run metrics_in methods diff_days recent_days =
              (if \<exists>ob \<in> set (observations metrics_in). variable ob \<in> set (method_fields methods)
               then Inl KeyError else Inl ValueError))"
proof -
  let ?run = "run metrics_in methods diff_days recent_days"
  let ?all = "\<forall>f \<in> set (method_fields methods). f \<in> variable ` set (observations metrics_in)"
  have d: "distinct (map obs_key (timeseries_long metrics_in (ts_value_cols methods)))"
    using uniq distinct_ts_value_cols by (rule distinct_timeseries_long)
  have ok: "schema_ok metrics_in methods \<longleftrightarrow> ?all"
    using ne names d wf by (auto simp: schema_ok_def)
  have inr: "(\<exists>res. ?run = Inr res) \<longleftrightarrow> ?all"
    using run_Inr_iff [of metrics_in methods diff_days recent_days] ok by simp
  have inl: "(\<exists>e. ?run = Inl e) \<longleftrightarrow> \<not> ?all"
    using inr by (cases ?run) auto
  have ae: "?run = Inl AssertionError \<longleftrightarrow>
      (\<exists>f \<in> set (method_fields methods). f \<notin> set (data_columns metrics_in))"
    unfolding run_AssertionError_iff by auto
  have kinds: "?run = (if \<exists>ob \<in> set (observations metrics_in). variable ob \<in> set (method_fields methods)
               then Inl KeyError else Inl ValueError)"
    if "set (method_fields methods) \<subseteq> set (data_columns metrics_in)"
       "\<exists>f \<in> set (method_fields methods). f \<notin> variable ` set (observations metrics_in)"
  proof (cases "\<exists>ob \<in> set (observations metrics_in). variable ob \<in> set (method_fields methods)")
    case True
    then show ?thesis using run_KeyError [OF that(1) True uniq that(2)] by simp
  next
    case False
    then show ?thesis using run_no_observation [OF that(1)] by simp
  qed
  show ?thesis
    using inl inr ae kinds by blast
qed

theorem run_failure_iff_witness:
  "priority_methods \<noteq> [] \<and> distinct (map name priority_methods) \<and>
   distinct (map obs_key (observations missing_field_input)) \<and>
   variable ` set (observations missing_field_input) \<subseteq> set (data_columns missing_field_input) \<and>
   distinct (map obs_key (observations priority_input)) \<and>
   variable ` set (observations priority_input) \<subseteq> set (data_columns priority_input) \<and>
   run missing_field_input priority_methods 1 14 = Inl KeyError \<and>
   (\<exists>res. run priority_input priority_methods 1 14 = Inr res)"
proof -
  have ne: "priority_methods \<noteq> []" by (simp add: priority_methods_def)
  have names: "distinct (map name priority_methods)" by code_simp
  have uniq: "distinct (map obs_key (observations missing_field_input))" by code_simp
  have wf: "variable ` set (observations missing_field_input) \<subseteq> set (data_columns missing_field_input)"
    by code_simp
  have uniq': "distinct (map obs_key (observations priority_input))" by code_simp
  have wf': "variable ` set (observations priority_input) \<subseteq> set (data_columns priority_input)"
    by code_simp
  have cols: "set (method_fields priority_methods) \<subseteq> set (data_columns missing_field_input)"
    by code_simp
  have miss: "\<exists>f \<in> set (method_fields priority_methods).
                f \<notin> variable ` set (observations missing_field_input)"
    by code_simp
  have some: "\<exists>ob \<in> set (observations missing_field_input).
                variable ob \<in> set (method_fields priority_methods)"
    by code_simp
  have all: "\<forall>f \<in> set (method_fields priority_methods).
                f \<in> variable ` set (observations priority_input)"
    by code_simp
  from run_failure_iff [OF ne names uniq wf, of 1 14] cols miss some
  have a: "run missing_field_input priority_methods 1 14 = Inl KeyError" by presburger
  from run_failure_iff [OF ne names uniq' wf', of 1 14] all
  have b: "\<exists>res. run priority_input priority_methods 1 14 = Inr res" by blast
  from ne names uniq wf uniq' wf' a b show ?thesis by blast
qed

section \<open>Recency and selection\<close>

lemma loc_of_row: "(\<lambda>((l, n), r). l) = (\<lambda>x. fst (fst x))"
  by (auto simp: fun_eq_iff)

lemma groupby_first_mem:
  assumes "(l, n, r) \<in> set (groupby_first rs)"
  shows "\<exists>r'. ((l, n), r') \<in> set rs"
proof -
  define g where "g = filter (\<lambda>((l', n), r). l' = l) rs"
  from assms have "l \<in> set (sort (remdups (map (\<lambda>x. fst (fst x)) rs)))"
    and n: "n = snd (fst (hd g))"
    unfolding groupby_first_def Let_def g_def loc_of_row by auto
  then obtain x where x: "x \<in> set rs" "fst (fst x) = l" by auto
  from x have "g \<noteq> []" by (auto simp: g_def filter_empty_conv case_prod_beta)
  then have "hd g \<in> set g" by simp
  then have "hd g \<in> set rs" and "fst (fst (hd g)) = l" by (auto simp: g_def)
  with n have "((l, n), snd (hd g)) \<in> set rs"
    by (metis prod.collapse)
  then show ?thesis ..
qed

lemma groupby_first_locs:
  "fst ` set (groupby_first rs) = (\<lambda>((l, n), r). l) ` set rs"
proof -
  have "map fst (groupby_first rs) = sort (remdups (map (\<lambda>((l, n), r). l) rs))"
    by (simp add: groupby_first_def Let_def comp_def)
  then have "set (map fst (groupby_first rs)) = (\<lambda>((l, n), r). l) ` set rs"
    by simp
  then show ?thesis by simp
qed

lemma provenance_assemble:
  "provenance (test_positivity (assemble long rd aw)) =
     map (\<lambda>(l, n, r). ((l, ''positivity''), n)) (groupby_first (all_recent_data long rd aw))"
  by (simp add: assemble_def Let_def from_timeseries_df_def)

lemma timeseries_df_assemble:
  "timeseries_df (test_positivity (assemble long rd aw)) =
     stack (input_date_range long)
       (map (\<lambda>(l, n, r). (l, r)) (groupby_first (all_recent_data long rd aw)))"
  by (simp add: assemble_def Let_def from_timeseries_df_def)

lemma all_methods_timeseries_assemble:
  "all_methods_timeseries (assemble long rd aw) = aw"
  by (simp add: assemble_def Let_def)

lemma provenance_mem:
  assumes "((l, v), n) \<in> set (provenance (test_positivity (assemble long rd aw)))"
  shows "v = ''positivity'' \<and>
         (\<exists>r. ((l, n), r) \<in> set (rows aw) \<and>
              has_recent_data (input_date_range long) (recent_date_range long rd) r)"
proof -
  from assms obtain r where "(l, n, r) \<in> set (groupby_first (all_recent_data long rd aw))"
    and v: "v = ''positivity''"
    by (auto simp: provenance_assemble)
  from groupby_first_mem [OF this(1)] obtain r' where
    "((l, n), r') \<in> set (all_recent_data long rd aw)" ..
  then have "((l, n), r') \<in> set (rows aw) \<and>
      has_recent_data (input_date_range long) (recent_date_range long rd) r'"
    by (auto simp: all_recent_data_def)
  with v show ?thesis by blast
qed

lemma provenance_locs:
  "(fst \<circ> fst) ` set (provenance (test_positivity (assemble long rd aw))) =
     (\<lambda>((l, n), r). l) ` set (all_recent_data long rd aw)"
proof -
  have "(fst \<circ> fst) ` set (provenance (test_positivity (assemble long rd aw))) =
      fst ` set (groupby_first (all_recent_data long rd aw))"
    by (force simp: provenance_assemble image_iff)
  then show ?thesis by (simp add: groupby_first_locs)
qed

lemma stack_locs: "(l, d, c) \<in> set (stack axis rs) \<Longrightarrow> l \<in> fst ` set rs"
  by (force simp: stack_def)

lemma timeseries_df_locs:
  assumes "(l, d, c) \<in> set (timeseries_df (test_positivity (assemble long rd aw)))"
  shows "l \<in> (\<lambda>((l, n), r). l) ` set (all_recent_data long rd aw)"
proof -
  from assms have "l \<in> fst ` set (map (\<lambda>(l, n, r). (l, r)) (groupby_first (all_recent_data long rd aw)))"
    unfolding timeseries_df_assemble by (rule stack_locs)
  then have "l \<in> fst ` set (groupby_first (all_recent_data long rd aw))"
    by (force simp: image_iff)
  then show ?thesis by (simp add: groupby_first_locs)
qed

lemma set_recent_date_range:
  "set (recent_date_range long rd) =
     {d. end_date long - int rd < d \<and> d \<le> end_date long \<and> start_date long \<le> d}"
  by (auto simp: recent_date_range_def recent_range_def set_input_date_range)

lemma has_recent_data_iff:
  "has_recent_data axis recent r \<longleftrightarrow> (\<exists>(d, c) \<in> set (zip axis r). d \<in> set recent \<and> notna c)"
  by (simp add: has_recent_data_def)

lemma distinct_keys_frame_div: "distinct (map fst (rows (frame_div a b)))"
  by (simp add: frame_div_def comp_def)

lemma keys_concat_frames:
  "k \<in> fst ` set (rows (concat_frames axis fs)) \<Longrightarrow> snd k \<in> fst ` set fs"
  by (force simp: concat_frames_def)

lemma distinct_keys_concat_frames:
  "distinct (map fst fs) \<Longrightarrow> (\<forall>(n, f) \<in> set fs. distinct (map fst (rows f))) \<Longrightarrow>
     distinct (map fst (rows (concat_frames axis fs)))"
proof (induction fs)
  case Nil
  show ?case by (simp add: concat_frames_def)
next
  case (Cons nf fs)
  obtain n f where nf: "nf = (n, f)" by (cases nf)
  define xs where "xs = map (\<lambda>(l, r). ((l, n), r)) (rows f)"
  define ys where "ys = rows (concat_frames axis fs)"
  have split: "rows (concat_frames axis (nf # fs)) = xs @ ys"
    by (simp add: concat_frames_def nf xs_def ys_def)
  have "distinct (map fst (rows f))" using Cons.prems(2) by (simp add: nf)
  then have d1: "distinct (map fst xs)"
    unfolding xs_def by (auto simp: distinct_map inj_on_def comp_def case_prod_beta)
  have d2: "distinct (map fst ys)"
    unfolding ys_def using Cons by simp
  have n: "n \<notin> fst ` set fs" using Cons.prems(1) by (simp add: nf)
  have k1: "snd k = n" if "k \<in> fst ` set xs" for k
    using that unfolding xs_def by auto
  have k2: "snd k \<in> fst ` set fs" if "k \<in> fst ` set ys" for k
    using that unfolding ys_def by (rule keys_concat_frames)
  have disj: "fst ` set xs \<inter> fst ` set ys = {}"
  proof -
    have False if a: "k \<in> fst ` set xs" and b: "k \<in> fst ` set ys" for k
      using k1 [OF a] k2 [OF b] n by simp
    then show ?thesis by (meson disjoint_iff)
  qed
  show ?case unfolding split using d1 d2 disj by simp
qed

lemma distinct_keys_all_wide:
  assumes "distinct (map name methods)"
  shows "distinct (map fst (rows (all_wide long (map (\<lambda>m. (name m, method_frame df m)) methods))))"
proof -
  let ?fs = "map (\<lambda>m. (name m, method_frame df m)) methods"
  have a: "distinct (map fst ?fs)" using assms by (simp add: comp_def)
  have b: "\<forall>(n, f) \<in> set ?fs. distinct (map fst (rows f))"
    by (auto simp: method_frame_def distinct_keys_frame_div)
  have c: "distinct (map fst (rows (concat_frames (input_date_range long) ?fs)))"
    using a b by (rule distinct_keys_concat_frames)
  have d: "distinct (map fst (filter P xs))" if "distinct (map fst xs)" for P and xs :: "((location \<times> string) \<times> cell list) list"
    using that by (rule distinct_map_filter)
  have e: "distinct (map fst (sort_key fst xs))" if "distinct (map fst xs)" for xs :: "((location \<times> string) \<times> cell list) list"
    using that by (simp add: distinct_map)
  show ?thesis
    unfolding all_wide_def sort_index_def dropna_all_def
    using c by (simp add: d e)
qed

text \<open>
  C7: on every input on which \<^verbatim>\<open>run\<close> raises nothing, it returns a result in which
  \<^item> the recency window is the part of the date axis after
    \<open>end_date - recent_days\<close>;
  \<^item> a method whose candidate series for a region has non-missing values only at
    dates before the window is not the region's provenance;
  \<^item> a region none of whose candidate series has a value in the window is absent from
    the provenance and from the output series.
  Whether the run raises (\<open>schema_ok\<close>) does not depend on recency.
\<close>

theorem recency_necessity:
  assumes ok: "schema_ok metrics_in methods"
  shows "\<exists>res. run metrics_in methods diff_days recent_days = Inr res \<and>
     set (recent_date_range (input_long metrics_in methods) recent_days) =
       {d \<in> set (input_date_range (input_long metrics_in methods)).
          end_date (input_long metrics_in methods) - int recent_days < d} \<and>
     (\<forall>l n r. ((l, n), r) \<in> set (rows (all_methods_timeseries res)) \<and>
              (\<forall>(d, c) \<in> set (zip (input_date_range (input_long metrics_in methods)) r).
                 notna c \<longrightarrow> d \<le> end_date (input_long metrics_in methods) - int recent_days)
        \<longrightarrow> ((l, ''positivity''), n) \<notin> set (provenance (test_positivity res))) \<and>
     (\<forall>l. (\<forall>n r. ((l, n), r) \<in> set (rows (all_methods_timeseries res)) \<longrightarrow>
                 \<not> has_recent_data (input_date_range (input_long metrics_in methods))
                      (recent_date_range (input_long metrics_in methods) recent_days) r)
        \<longrightarrow> l \<notin> (fst \<circ> fst) ` set (provenance (test_positivity res)) \<and>
            l \<notin> fst ` set (timeseries_df (test_positivity res)))"
proof -
  define long where "long = input_long metrics_in methods"
  define aw where "aw = all_wide long (map (\<lambda>m. (name m, method_frame (diff_df long diff_days) m)) methods)"
  from ok obtain res where res: "run metrics_in methods diff_days recent_days = Inr res"
    using run_Inr_iff by blast
  have res_eq: "res = assemble long recent_days aw"
    using run_Inr [OF res] by (simp add: long_def aw_def)
  have names: "distinct (map name methods)" using ok by (simp add: schema_ok_def)
  have keys: "distinct (map fst (rows aw))"
    unfolding aw_def using names by (rule distinct_keys_all_wide)
  have window: "set (recent_date_range long recent_days) =
       {d \<in> set (input_date_range long). end_date long - int recent_days < d}"
    by (auto simp: set_recent_date_range set_input_date_range)
  have never: "((l, ''positivity''), n) \<notin> set (provenance (test_positivity res))"
    if row: "((l, n), r) \<in> set (rows aw)"
      and old: "\<forall>(d, c) \<in> set (zip (input_date_range long) r).
                 notna c \<longrightarrow> d \<le> end_date long - int recent_days" for l n r
  proof
    assume "((l, ''positivity''), n) \<in> set (provenance (test_positivity res))"
    then obtain r' where r': "((l, n), r') \<in> set (rows aw)"
      "has_recent_data (input_date_range long) (recent_date_range long recent_days) r'"
      using provenance_mem [of l "''positivity''" n long recent_days aw] by (auto simp: res_eq)
    from keys row r'(1) have "r' = r" by (meson eq_key_imp_eq_value)
    with r'(2) obtain d c where "(d, c) \<in> set (zip (input_date_range long) r)"
      "d \<in> set (recent_date_range long recent_days)" "notna c"
      by (auto simp: has_recent_data_def)
    with old show False by (auto simp: window)
  qed
  have absent: "l \<notin> (fst \<circ> fst) ` set (provenance (test_positivity res)) \<and>
            l \<notin> fst ` set (timeseries_df (test_positivity res))"
    if none: "\<forall>n r. ((l, n), r) \<in> set (rows aw) \<longrightarrow>
                 \<not> has_recent_data (input_date_range long) (recent_date_range long recent_days) r" for l
  proof -
    have no: "l \<notin> (\<lambda>((l, n), r). l) ` set (all_recent_data long recent_days aw)"
      using none by (auto simp: all_recent_data_def)
    have a: "l \<notin> (fst \<circ> fst) ` set (provenance (test_positivity res))"
      unfolding res_eq provenance_locs using no .
    have b: "l \<notin> fst ` set (timeseries_df (test_positivity res))"
    proof
      assume "l \<in> fst ` set (timeseries_df (test_positivity res))"
      then obtain d c where "(l, d, c) \<in> set (timeseries_df (test_positivity (assemble long recent_days aw)))"
        by (auto simp: res_eq)
      from timeseries_df_locs [OF this] no show False by simp
    qed
    from a b show ?thesis ..
  qed
  have aw_res: "all_methods_timeseries res = aw"
    by (simp add: res_eq all_methods_timeseries_assemble)
  show ?thesis
    apply (rule exI [of _ res])
    unfolding long_def [symmetric] aw_res
    using res window never absent by blast
qed

theorem recency_necessity_witness:
  "schema_ok stale_input stale_methods \<and>
   (\<exists>res. run stale_input stale_methods 1 2 = Inr res \<and>
      ((''B'', ''method1''), [NaN, Fin (1 / 10), NaN, NaN]) \<in> set (rows (all_methods_timeseries res)) \<and>
      ((''B'', ''positivity''), ''method1'') \<notin> set (provenance (test_positivity res)) \<and>
      ''B'' \<notin> (fst \<circ> fst) ` set (provenance (test_positivity res)) \<and>
      ''B'' \<notin> fst ` set (timeseries_df (test_positivity res)))"
proof -
  let ?long = "input_long stale_input stale_methods"
  have ok: "schema_ok stale_input stale_methods" by code_simp
  have axis: "input_date_range ?long = [0, 1, 2, 3]" by code_simp
  have recent: "recent_date_range ?long 2 = [2, 3]" by code_simp
  have e: "end_date ?long = 3" by code_simp
  have aw: "rows (all_methods_timeseries (projr (run stale_input stale_methods 1 2))) =
      [((''A'', ''method1''), [NaN, Fin (1 / 10), Fin (1 / 10), Fin (1 / 2)]),
       ((''B'', ''method1''), [NaN, Fin (1 / 10), NaN, NaN])]"
    by code_simp
  from recency_necessity [OF ok, of 1 2] obtain res where
    res: "run stale_input stale_methods 1 2 = Inr res"
    and never: "\<forall>l n r. ((l, n), r) \<in> set (rows (all_methods_timeseries res)) \<and>
              (\<forall>(d, c) \<in> set (zip (input_date_range ?long) r). notna c \<longrightarrow> d \<le> end_date ?long - int 2)
        \<longrightarrow> ((l, ''positivity''), n) \<notin> set (provenance (test_positivity res))"
    and absent: "\<forall>l. (\<forall>n r. ((l, n), r) \<in> set (rows (all_methods_timeseries res)) \<longrightarrow>
                 \<not> has_recent_data (input_date_range ?long) (recent_date_range ?long 2) r)
        \<longrightarrow> l \<notin> (fst \<circ> fst) ` set (provenance (test_positivity res)) \<and>
            l \<notin> fst ` set (timeseries_df (test_positivity res))"
    by (elim exE conjE) (rule that)
  have rows_res: "rows (all_methods_timeseries res) =
      [((''A'', ''method1''), [NaN, Fin (1 / 10), Fin (1 / 10), Fin (1 / 2)]),
       ((''B'', ''method1''), [NaN, Fin (1 / 10), NaN, NaN])]"
    using aw res by simp
  have row: "((''B'', ''method1''), [NaN, Fin (1 / 10), NaN, NaN]) \<in> set (rows (all_methods_timeseries res))"
    by (simp add: rows_res)
  have a: "((''B'', ''positivity''), ''method1'') \<notin> set (provenance (test_positivity res))"
    using never [rule_format, of "''B''" "''method1''" "[NaN, Fin (1 / 10), NaN, NaN]"] row
    by (simp add: axis e)
  have b: "''B'' \<notin> (fst \<circ> fst) ` set (provenance (test_positivity res)) \<and>
           ''B'' \<notin> fst ` set (timeseries_df (test_positivity res))"
    by (rule absent [rule_format]) (simp add: rows_res axis recent has_recent_data_def)
  from ok res row a b show ?thesis by blast
qed

lemma infinity_notna: "PInf \<in> set r \<or> NInf \<in> set r \<Longrightarrow> \<exists>c \<in> set r. notna c"
  using notna.simps(3,4) by blast

lemma has_recent_dataI:
  "(d, c) \<in> set (zip axis r) \<Longrightarrow> d \<in> set recent \<Longrightarrow> notna c \<Longrightarrow> has_recent_data axis recent r"
  unfolding has_recent_data_def by (rule bexI [of _ "(d, c)"]) simp_all

lemma all_wide_retains:
  "((l, n), r) \<in> set (rows (all_wide long fs)) \<longleftrightarrow>
     ((l, n), r) \<in> set (rows (concat_frames (input_date_range long) fs)) \<and> (\<exists>c \<in> set r. notna c)"
  by (auto simp: all_wide_def sort_index_def dropna_all_def)

text \<open>
  C10: a non-zero finite numerator delta over a zero denominator delta is an infinity;
  the infinities are not null; a row holding one is kept by \<^verbatim>\<open>dropna\<close> and so is a
  row of \<^verbatim>\<open>all_wide\<close>; an infinity at a date of the recency window gives the row
  recent data, and the region of such a row has a provenance entry in the result.
\<close>

theorem infinity_counts_as_value:
  "(a \<noteq> 0 \<longrightarrow> fdiv (Fin a) (Fin 0) = (if 0 < a then PInf else NInf)) \<and>
   notna PInf \<and> notna NInf \<and>
   ((k, r) \<in> set (rows df) \<and> (PInf \<in> set r \<or> NInf \<in> set r) \<longrightarrow>
      (k, r) \<in> set (rows (dropna_all df))) \<and>
   (((l, n), r') \<in> set (rows (concat_frames (input_date_range long) fs)) \<and>
    (PInf \<in> set r' \<or> NInf \<in> set r') \<longrightarrow>
      ((l, n), r') \<in> set (rows (all_wide long fs))) \<and>
   ((d, c) \<in> set (zip axis r) \<and> d \<in> set recent \<and> (c = PInf \<or> c = NInf) \<longrightarrow>
      has_recent_data axis recent r) \<and>
   (run metrics_in methods diff_days recent_days = Inr res \<and>
    ((l, n), r') \<in> set (rows (all_methods_timeseries res)) \<and>
    (d, c) \<in> set (zip (input_date_range (input_long metrics_in methods)) r') \<and>
    d \<in> set (recent_date_range (input_long metrics_in methods) recent_days) \<and>
    (c = PInf \<or> c = NInf) \<longrightarrow>
      (\<exists>n'. ((l, ''positivity''), n') \<in> set (provenance (test_positivity res))))"
proof (intro conjI impI)
  show "fdiv (Fin a) (Fin 0) = (if 0 < a then PInf else NInf)" if "a \<noteq> 0"
    using that by simp
  show "notna PInf" "notna NInf" by simp_all
  show "(k, r) \<in> set (rows (dropna_all df))"
    if "(k, r) \<in> set (rows df) \<and> (PInf \<in> set r \<or> NInf \<in> set r)"
    using that infinity_notna [of r] by (simp add: dropna_all_def)
  show "((l, n), r') \<in> set (rows (all_wide long fs))"
    if "((l, n), r') \<in> set (rows (concat_frames (input_date_range long) fs)) \<and>
        (PInf \<in> set r' \<or> NInf \<in> set r')"
    using that infinity_notna [of r'] unfolding all_wide_retains by blast
  show "has_recent_data axis recent r"
    if "(d, c) \<in> set (zip axis r) \<and> d \<in> set recent \<and> (c = PInf \<or> c = NInf)"
    using that by (auto intro: has_recent_dataI)
  show "\<exists>n'. ((l, ''positivity''), n') \<in> set (provenance (test_positivity res))"
    if h: "run metrics_in methods diff_days recent_days = Inr res \<and>
        ((l, n), r') \<in> set (rows (all_methods_timeseries res)) \<and>
        (d, c) \<in> set (zip (input_date_range (input_long metrics_in methods)) r') \<and>
        d \<in> set (recent_date_range (input_long metrics_in methods) recent_days) \<and>
        (c = PInf \<or> c = NInf)"
  proof -
    define long' where "long' = input_long metrics_in methods"
    from h obtain aw where res_eq: "res = assemble long' recent_days aw"
      using run_Inr [of metrics_in methods diff_days recent_days res] by (auto simp: long'_def)
    from h have row: "((l, n), r') \<in> set (rows aw)"
      by (simp add: res_eq all_methods_timeseries_assemble)
    from h have "notna c" by auto
    with h have "has_recent_data (input_date_range long') (recent_date_range long' recent_days) r'"
      unfolding long'_def by (blast intro: has_recent_dataI)
    with row have "((l, n), r') \<in> set (all_recent_data long' recent_days aw)"
      by (simp add: all_recent_data_def)
    then have "l \<in> (\<lambda>((l, n), r). l) ` set (all_recent_data long' recent_days aw)"
      by force
    then have "l \<in> (fst \<circ> fst) ` set (provenance (test_positivity res))"
      unfolding res_eq provenance_locs .
    then obtain v n' where p: "((l, v), n') \<in> set (provenance (test_positivity res))"
      by force
    then have "v = ''positivity''"
      using provenance_mem [of l v n' long' recent_days aw] by (simp add: res_eq)
    with p show ?thesis by blast
  qed
qed

theorem infinity_counts_as_value_witness:
  "run infinity_input stale_methods 1 14 =
     Inr \<lparr>all_methods_timeseries = \<lparr>columns = [0, 1], rows = [((''R'', ''method1''), [NaN, PInf])]\<rparr>,
          test_positivity = \<lparr>timeseries_df = [(''R'', 1, PInf)],
                             provenance = [((''R'', ''positivity''), ''method1'')]\<rparr>\<rparr> \<and>
   (1, PInf) \<in> set (zip (input_date_range (input_long infinity_input stale_methods)) [NaN, PInf]) \<and>
   1 \<in> set (recent_date_range (input_long infinity_input stale_methods) 14) \<and>
   (\<exists>n'. ((''R'', ''positivity''), n') \<in>
      set (provenance (test_positivity (projr (run infinity_input stale_methods 1 14)))))"
proof -
  let ?long = "input_long infinity_input stale_methods"
  let ?res = "\<lparr>all_methods_timeseries = \<lparr>columns = [0, 1], rows = [((''R'', ''method1''), [NaN, PInf])]\<rparr>,
          test_positivity = \<lparr>timeseries_df = [(''R'', 1, PInf)],
                             provenance = [((''R'', ''positivity''), ''method1'')]\<rparr>\<rparr>"
  have ev: "run infinity_input stale_methods 1 14 = Inr ?res" by code_simp
  have axis: "input_date_range ?long = [0, 1]" by code_simp
  have recent: "recent_date_range ?long 14 = [0, 1]" by code_simp
  have z: "(1, PInf) \<in> set (zip (input_date_range ?long) [NaN, PInf])" by (simp add: axis)
  have w: "1 \<in> set (recent_date_range ?long 14)" by (simp add: recent)
  have row: "((''R'', ''method1''), [NaN, PInf]) \<in> set (rows (all_methods_timeseries ?res))" by simp
  note all = infinity_counts_as_value [where l = "''R''" and n = "''method1''" and r' = "[NaN, PInf]"
      and d = 1 and c = PInf and metrics_in = infinity_input and methods = stale_methods
      and diff_days = 1 and recent_days = 14 and res = ?res]
  note last = all [THEN conjunct2, THEN conjunct2, THEN conjunct2, THEN conjunct2,
      THEN conjunct2, THEN conjunct2]
  have "\<exists>n'. ((''R'', ''positivity''), n') \<in> set (provenance (test_positivity ?res))"
  proof (rule mp [OF last])
    show "run infinity_input stale_methods 1 14 = Inr ?res \<and>
     ((''R'', ''method1''), [NaN, PInf]) \<in> set (rows (all_methods_timeseries ?res)) \<and>
     (1, PInf) \<in> set (zip (input_date_range ?long) [NaN, PInf]) \<and>
     1 \<in> set (recent_date_range ?long 14) \<and> (PInf = PInf \<or> PInf = NInf)"
      by (intro conjI disjI1 refl ev row z w)
  qed
  with ev z w show ?thesis by simp
qed

section \<open>The shape of the dense table\<close>

lemma columns_input_wide: "columns (input_wide long) = input_date_range long"
  by (simp add: input_wide_def unstack_reindex_def)

lemma keys_input_wide:
  "map fst (rows (input_wide long)) =
     sort (remdups (map (\<lambda>ob. (variable ob, location_id ob)) long))"
  by (simp add: input_wide_def rows_unstack_reindex comp_def)

lemma keys_diff_df_list:
  "map fst (rows (diff_df long p)) =
     sort (remdups (map (\<lambda>ob. (variable ob, location_id ob)) long))"
  by (simp add: rows_diff_df comp_def)

lemma rows_input_wide_mem:
  "(k, r) \<in> set (rows (input_wide long)) \<Longrightarrow> r = map (cell_at long k) (input_date_range long)"
  by (auto simp: input_wide_def rows_unstack_reindex)

lemma cell_at_missing:
  "\<forall>ob \<in> set long. obs_key ob \<noteq> (k, d) \<Longrightarrow> cell_at long k d = NaN"
proof -
  assume a: "\<forall>ob \<in> set long. obs_key ob \<noteq> (k, d)"
  have "map_of (map (\<lambda>ob. (obs_key ob, val ob)) long) (k, d) = None"
    using a by (auto simp: map_of_eq_None_iff image_iff)
  then show ?thesis by (simp add: cell_at_def)
qed

lemma cell_at_observed:
  assumes "distinct (map obs_key long)" "ob \<in> set long"
  shows "cell_at long (variable ob, location_id ob) (date ob) = val ob"
proof -
  have "distinct (map fst (map (\<lambda>ob. (obs_key ob, val ob)) long))"
    using assms(1) by (simp add: comp_def)
  moreover have "(obs_key ob, val ob) \<in> set (map (\<lambda>ob. (obs_key ob, val ob)) long)"
    using assms(2) by auto
  ultimately have "map_of (map (\<lambda>ob. (obs_key ob, val ob)) long) (obs_key ob) = Some (val ob)"
    by (rule map_of_is_SomeI)
  then show ?thesis by (simp add: cell_at_def obs_key_def)
qed

lemma date_bounds:
  assumes "long \<noteq> []"
  shows "start_date long \<in> date ` set long" "end_date long \<in> date ` set long"
    "ob \<in> set long \<Longrightarrow> start_date long \<le> date ob \<and> date ob \<le> end_date long"
proof -
  have fin: "finite (set (map date long))" and ne: "set (map date long) \<noteq> {}"
    using assms by simp_all
  show "start_date long \<in> date ` set long"
    using Min_in [OF fin ne] by (simp add: start_date_def)
  show "end_date long \<in> date ` set long"
    using Max_in [OF fin ne] by (simp add: end_date_def)
  show "start_date long \<le> date ob \<and> date ob \<le> end_date long" if "ob \<in> set long"
    using that by (simp add: start_date_def end_date_def)
qed

text \<open>
  C6: \<^verbatim>\<open>input_long\<close> holds the observations of the needed fields. The dense table
  and the delta table built from it have the same row labels, one row for each
  \<open>(variable, region)\<close> with an observation, without repetition, and the same columns,
  the dates from the earliest to the latest observed date of \<^verbatim>\<open>input_long\<close> as a
  whole. A row of the dense table has one cell per date: the observed value where
  there is one (observations being unique per variable, region and date), NaN where
  there is none.
\<close>

theorem dense_table_shape:
  "set (input_long metrics_in methods) =
     {ob \<in> set (observations metrics_in). variable ob \<in> set (method_fields methods)} \<and>
   columns (input_wide long) = [start_date long..end_date long] \<and>
   columns (diff_df long p) = [start_date long..end_date long] \<and>
   (long \<noteq> [] \<longrightarrow>
      start_date long \<in> date ` set long \<and> end_date long \<in> date ` set long \<and>
      (\<forall>ob \<in> set long. start_date long \<le> date ob \<and> date ob \<le> end_date long)) \<and>
   distinct (map fst (rows (input_wide long))) \<and>
   fst ` set (rows (input_wide long)) = (\<lambda>ob. (variable ob, location_id ob)) ` set long \<and>
   map fst (rows (diff_df long p)) = map fst (rows (input_wide long)) \<and>
   (\<forall>k r. (k, r) \<in> set (rows (input_wide long)) \<longrightarrow>
      r = map (cell_at long k) [start_date long..end_date long]) \<and>
   (\<forall>k d. (\<forall>ob \<in> set long. obs_key ob \<noteq> (k, d)) \<longrightarrow> cell_at long k d = NaN) \<and>
   (distinct (map obs_key long) \<longrightarrow>
      (\<forall>ob \<in> set long. cell_at long (variable ob, location_id ob) (date ob) = val ob))"
proof -
  have 1: "set (input_long metrics_in methods) =
     {ob \<in> set (observations metrics_in). variable ob \<in> set (method_fields methods)}"
    by (simp add: set_timeseries_long set_ts_value_cols)
  have 2: "columns (input_wide long) = [start_date long..end_date long]"
    by (simp add: columns_input_wide input_date_range_def date_range_def)
  have 3: "columns (diff_df long p) = [start_date long..end_date long]"
    by (simp add: columns_diff_df input_date_range_def date_range_def)
  have 4: "long \<noteq> [] \<longrightarrow>
      start_date long \<in> date ` set long \<and> end_date long \<in> date ` set long \<and>
      (\<forall>ob \<in> set long. start_date long \<le> date ob \<and> date ob \<le> end_date long)"
    using date_bounds [of long] by blast
  have 5: "distinct (map fst (rows (input_wide long)))"
    by (simp add: keys_input_wide)
  have "set (map fst (rows (input_wide long))) = (\<lambda>ob. (variable ob, location_id ob)) ` set long"
    unfolding keys_input_wide by simp
  then have 6: "fst ` set (rows (input_wide long)) = (\<lambda>ob. (variable ob, location_id ob)) ` set long"
    by simp
  have 7: "map fst (rows (diff_df long p)) = map fst (rows (input_wide long))"
    by (simp only: keys_input_wide keys_diff_df_list)
  have 8: "\<forall>k r. (k, r) \<in> set (rows (input_wide long)) \<longrightarrow>
      r = map (cell_at long k) [start_date long..end_date long]"
    using rows_input_wide_mem [of _ _ long] by (simp add: input_date_range_def date_range_def)
  have 9: "\<forall>k d. (\<forall>ob \<in> set long. obs_key ob \<noteq> (k, d)) \<longrightarrow> cell_at long k d = NaN"
    using cell_at_missing by blast
  have 10: "distinct (map obs_key long) \<longrightarrow>
      (\<forall>ob \<in> set long. cell_at long (variable ob, location_id ob) (date ob) = val ob)"
    using cell_at_observed by blast
  from 1 2 3 4 5 6 7 8 9 10 show ?thesis by (intro conjI)
qed

theorem dense_table_shape_witness:
  "input_long mixture_input mixture_methods \<noteq> [] \<and>
   distinct (map obs_key (input_long mixture_input mixture_methods)) \<and>
   columns (input_wide (input_long mixture_input mixture_methods)) = [0, 1, 2, 3] \<and>
   fst ` set (rows (input_wide (input_long mixture_input mixture_methods))) =
     {(''positive_cases'', ''R''), (''positive_tests'', ''R''), (''total_tests'', ''R'')} \<and>
   ((''positive_tests'', ''R''), [NaN, NaN, Fin 4, Fin 6])
     \<in> set (rows (input_wide (input_long mixture_input mixture_methods)))"
proof -
  let ?long = "input_long mixture_input mixture_methods"
  let ?k = "(''positive_tests'', ''R'')"
  note shape = dense_table_shape [of mixture_input mixture_methods ?long 1]
  have ne: "?long \<noteq> []" by code_simp
  have d: "distinct (map obs_key ?long)" by code_simp
  have s: "start_date ?long = 0" by code_simp
  have e: "end_date ?long = 3" by code_simp
  have axis: "[0..3::int] = [0, 1, 2, 3]" by code_simp
  have keys: "(\<lambda>ob. (variable ob, location_id ob)) ` set ?long =
     {(''positive_cases'', ''R''), (''positive_tests'', ''R''), (''total_tests'', ''R'')}"
    by code_simp
  have o2: "obs ''positive_tests'' ''R'' 2 4 \<in> set ?long" by code_simp
  have o3: "obs ''positive_tests'' ''R'' 3 6 \<in> set ?long" by code_simp
  have m0: "\<forall>ob \<in> set ?long. obs_key ob \<noteq> (?k, 0)" by code_simp
  have m1: "\<forall>ob \<in> set ?long. obs_key ob \<noteq> (?k, 1)" by code_simp
  note s2 = shape [THEN conjunct2]
  note s6 = s2 [THEN conjunct2, THEN conjunct2, THEN conjunct2, THEN conjunct2]
  note s8 = s6 [THEN conjunct2, THEN conjunct2]
  note s9 = s8 [THEN conjunct2]
  note rows_eq = s8 [THEN conjunct1, rule_format]
  note missing = s9 [THEN conjunct1]
  note observed = s9 [THEN conjunct2, rule_format]
  from s2 [THEN conjunct1] have cols: "columns (input_wide ?long) = [0, 1, 2, 3]"
    by (simp add: s e axis)
  from s6 [THEN conjunct1] have ks: "fst ` set (rows (input_wide ?long)) =
     {(''positive_cases'', ''R''), (''positive_tests'', ''R''), (''total_tests'', ''R'')}"
    unfolding keys .
  then have "?k \<in> fst ` set (rows (input_wide ?long))" by simp
  then obtain r where r: "(?k, r) \<in> set (rows (input_wide ?long))" by force
  from rows_eq [OF r] have r_eq: "r = map (cell_at ?long ?k) [0, 1, 2, 3]"
    by (simp add: s e axis)
  from missing m0 have c0: "cell_at ?long ?k 0 = NaN" by blast
  from missing m1 have c1: "cell_at ?long ?k 1 = NaN" by blast
  from observed [OF d o2] have c2: "cell_at ?long ?k 2 = Fin 4" by (simp add: obs_def)
  from observed [OF d o3] have c3: "cell_at ?long ?k 3 = Fin 6" by (simp add: obs_def)
  have "r = [NaN, NaN, Fin 4, Fin 6]" by (simp add: r_eq c0 c1 c2 c3)
  with r have row: "(?k, [NaN, NaN, Fin 4, Fin 6]) \<in> set (rows (input_wide ?long))" by simp
  from ne d cols ks row show ?thesis by (intro conjI)
qed

section \<open>Determinism\<close>

lemma distinct_map_filter_split:
  assumes "\<And>a b. a \<in> set xs \<Longrightarrow> b \<in> set xs \<Longrightarrow> P a \<Longrightarrow> Q b \<Longrightarrow> f a \<noteq> f b"
  shows "distinct (map f (filter (\<lambda>x. P x \<or> Q x) xs)) \<longleftrightarrow>
         distinct (map f (filter P xs)) \<and> distinct (map f (filter Q xs))"
  using assms
proof (induction xs)
  case Nil
  show ?case by simp
next
  case (Cons x xs)
  have IH: "distinct (map f (filter (\<lambda>x. P x \<or> Q x) xs)) \<longleftrightarrow>
         distinct (map f (filter P xs)) \<and> distinct (map f (filter Q xs))"
    using Cons by simp
  have pq: "f a \<noteq> f b" if "a \<in> set (x # xs)" "b \<in> set (x # xs)" "P a" "Q b" for a b
    using Cons.prems that by blast
  show ?case
  proof (cases "P x")
    case True
    have "f x \<notin> f ` {y \<in> set xs. Q y}" using pq [of x] True by auto
    moreover have "\<not> Q x" using pq [of x x] True by auto
    ultimately show ?thesis using True IH by (auto simp: image_iff)
  next
    case False
    show ?thesis
    proof (cases "Q x")
      case True
      have "f x \<notin> f ` {y \<in> set xs. P y}" using pq [of _ x] True by force
      then show ?thesis using True False IH by (auto simp: image_iff)
    next
      case F2: False
      then show ?thesis using False IH by simp
    qed
  qed
qed

lemma distinct_timeseries_long_iff:
  "distinct cols \<Longrightarrow>
     distinct (map obs_key (timeseries_long ds cols)) \<longleftrightarrow>
     distinct (map obs_key (filter (\<lambda>ob. variable ob \<in> set cols) (observations ds)))"
proof (induction cols)
  case Nil
  show ?case by (simp add: timeseries_long_def)
next
  case (Cons c cols)
  let ?F = "filter (\<lambda>ob. variable ob = c) (observations ds)"
  have split: "timeseries_long ds (c # cols) = ?F @ timeseries_long ds cols"
    by (simp add: timeseries_long_def)
  have c: "c \<notin> set cols" and dc: "distinct cols" using Cons.prems by simp_all
  have disj: "obs_key ` set ?F \<inter> obs_key ` set (timeseries_long ds cols) = {}"
  proof -
    have False if "a \<in> set ?F" "b \<in> set (timeseries_long ds cols)" "obs_key a = obs_key b" for a b
    proof -
      from that(2) have "variable b \<in> set cols" by (simp add: set_timeseries_long)
      moreover from that(1,3) have "variable b = c" using obs_key_variable [of a b] by simp
      ultimately show False using c by simp
    qed
    then show ?thesis by (auto simp: image_iff) metis
  qed
  have "distinct (map obs_key (timeseries_long ds (c # cols))) \<longleftrightarrow>
      distinct (map obs_key ?F) \<and> distinct (map obs_key (timeseries_long ds cols))"
    unfolding split using disj by simp
  also have "\<dots> \<longleftrightarrow> distinct (map obs_key ?F) \<and>
      distinct (map obs_key (filter (\<lambda>ob. variable ob \<in> set cols) (observations ds)))"
    using Cons.IH [OF dc] by simp
  also have "\<dots> \<longleftrightarrow> distinct (map obs_key
      (filter (\<lambda>ob. variable ob = c \<or> variable ob \<in> set cols) (observations ds)))"
  proof (rule distinct_map_filter_split [symmetric])
    fix a b :: observation
    assume "a \<in> set (observations ds)" "b \<in> set (observations ds)"
      "variable a = c" "variable b \<in> set cols"
    then have "variable a \<noteq> variable b" using c by auto
    then show "obs_key a \<noteq> obs_key b" using obs_key_variable by blast
  qed
  finally show ?case by simp
qed

lemma cell_at_cong:
  assumes "set long1 = set long2" "distinct (map obs_key long1)" "distinct (map obs_key long2)"
  shows "cell_at long1 = cell_at long2"
proof -
  let ?al = "\<lambda>long. map (\<lambda>ob. (obs_key ob, val ob)) long"
  have "distinct (map fst (?al long1))" "distinct (map fst (?al long2))"
    using assms(2,3) by (simp_all add: comp_def)
  moreover have "set (?al long1) = set (?al long2)" using assms(1) by simp
  ultimately have "map_of (?al long1) = map_of (?al long2)"
    by (simp add: map_of_inject_set)
  then show ?thesis by (simp add: cell_at_def fun_eq_iff)
qed

lemma dates_cong:
  assumes "set long1 = set long2"
  shows "start_date long1 = start_date long2" "end_date long1 = end_date long2"
    "input_date_range long1 = input_date_range long2"
    "recent_date_range long1 rd = recent_date_range long2 rd"
  using assms by (simp_all add: start_date_def end_date_def input_date_range_def recent_date_range_def)

lemma sort_remdups_cong: "set xs = set ys \<Longrightarrow> sort (remdups xs) = sort (remdups ys)"
  by (metis sorted_list_of_set_sort_remdups)

lemma diff_df_cong:
  assumes "set long1 = set long2" "distinct (map obs_key long1)" "distinct (map obs_key long2)"
  shows "diff_df long1 p = diff_df long2 p"
proof -
  have k: "sort (remdups (map (\<lambda>ob. (variable ob, location_id ob)) long1)) =
           sort (remdups (map (\<lambda>ob. (variable ob, location_id ob)) long2))"
    by (rule sort_remdups_cong) (simp add: assms(1))
  show ?thesis
    unfolding diff_df_def input_wide_def unstack_reindex_def
    by (simp only: k cell_at_cong [OF assms] dates_cong(3) [OF assms(1)])
qed

lemma all_wide_cong:
  assumes "set long1 = set long2"
  shows "all_wide long1 fs = all_wide long2 fs"
  unfolding all_wide_def dates_cong(3) [OF assms] ..

lemma assemble_cong:
  assumes "set long1 = set long2"
  shows "assemble long1 rd aw = assemble long2 rd aw"
  unfolding assemble_def all_recent_data_def dates_cong(3) [OF assms] dates_cong(4) [OF assms] ..

lemma run_long_cong:
  assumes same: "set long1 = set long2"
      and dist: "distinct (map obs_key long1) \<longleftrightarrow> distinct (map obs_key long2)"
  shows "run_long long1 methods diff_days recent_days = run_long long2 methods diff_days recent_days"
proof (cases "long1 \<noteq> [] \<and> distinct (map obs_key long1)")
  case True
  then have t: "long1 \<noteq> []" "distinct (map obs_key long1)" by simp_all
  from t(1) same have t2: "long2 \<noteq> []" by (metis set_empty)
  from t(2) dist have t3: "distinct (map obs_key long2)" by simp
  have df: "diff_df long1 diff_days = diff_df long2 diff_days"
    using same t(2) t3 by (rule diff_df_cong)
  have 1: "run_long long1 methods diff_days recent_days =
      (case calculate_all methods (diff_df long2 diff_days) of
          Inl e \<Rightarrow> Inl e
        | Inr fs \<Rightarrow>
           if methods = [] \<or> \<not> distinct (map name methods) then Inl ValueError
           else Inr (assemble long2 recent_days (all_wide long2 fs)))"
    unfolding run_long_def df [symmetric] all_wide_cong [OF same, symmetric]
      assemble_cong [OF same, symmetric]
    using t by simp
  have 2: "run_long long2 methods diff_days recent_days =
      (case calculate_all methods (diff_df long2 diff_days) of
          Inl e \<Rightarrow> Inl e
        | Inr fs \<Rightarrow>
           if methods = [] \<or> \<not> distinct (map name methods) then Inl ValueError
           else Inr (assemble long2 recent_days (all_wide long2 fs)))"
    unfolding run_long_def using t2 t3 by simp
  from 1 2 show ?thesis by simp
next
  case False
  then consider "long1 = []" | "\<not> distinct (map obs_key long1)" by blast
  then show ?thesis
  proof cases
    case 1
    with same have "long2 = []" by (metis set_empty)
    with 1 show ?thesis by (simp add: run_long_def)
  next
    case 2
    with dist have "\<not> distinct (map obs_key long2)" by simp
    with 2 show ?thesis by (simp add: run_long_def)
  qed
qed

text \<open>
  C9: the one thing in \<^verbatim>\<open>run\<close> that Python leaves open is the order in which
  \<^verbatim>\<open>list(set(...))\<close> enumerates the needed fields. Whatever the enumeration (any list
  of the needed fields without repetition), the body returns what \<open>run\<close> returns,
  errors included: the result is a function of the input snapshot, the registry,
  \<open>diff_days\<close> and \<open>recent_days\<close> alone.
\<close>

theorem run_deterministic:
  assumes d: "distinct cols" and s: "set cols = set (method_fields methods)"
  shows "run_cols cols metrics_in methods diff_days recent_days =
         run metrics_in methods diff_days recent_days"
proof -
  have sets: "set cols = set (ts_value_cols methods)" using s by (simp add: set_ts_value_cols)
  have same: "set (timeseries_long metrics_in cols) =
      set (timeseries_long metrics_in (ts_value_cols methods))"
    by (simp add: set_timeseries_long sets)
  have dist: "distinct (map obs_key (timeseries_long metrics_in cols)) \<longleftrightarrow>
      distinct (map obs_key (timeseries_long metrics_in (ts_value_cols methods)))"
    by (simp add: distinct_timeseries_long_iff [OF d]
          distinct_timeseries_long_iff [OF distinct_ts_value_cols] sets)
  show ?thesis
    unfolding run_def run_cols_def sets
    by (simp only: run_long_cong [OF same dist])
qed

theorem run_deterministic_witness:
  "distinct [''total_tests'', ''positive_tests'', ''positive_cases''] \<and>
   set [''total_tests'', ''positive_tests'', ''positive_cases''] = set (method_fields mixture_methods) \<and>
   ts_value_cols mixture_methods = [''positive_cases'', ''positive_tests'', ''total_tests''] \<and>
   run_cols [''total_tests'', ''positive_tests'', ''positive_cases''] mixture_input mixture_methods 1 14 =
     run mixture_input mixture_methods 1 14"
proof -
  have d: "distinct [''total_tests'', ''positive_tests'', ''positive_cases'']" by simp
  have s: "set [''total_tests'', ''positive_tests'', ''positive_cases''] = set (method_fields mixture_methods)"
    by code_simp
  have n: "ts_value_cols mixture_methods = [''positive_cases'', ''positive_tests'', ''total_tests'']"
    by code_simp
  from run_deterministic [OF d s, of mixture_input 1 14] d s n show ?thesis by (intro conjI)
qed

section \<open>One region at a time\<close>

lemma filter_sort_remdups:
  "filter P (sort (remdups xs)) = sort (remdups (filter P xs))"
  by (simp add: filter_sort remdups_filter)

lemma filter_tabulate:
  "filter (\<lambda>x. P (fst x)) (map (\<lambda>k. (k, g k)) ks) = map (\<lambda>k. (k, g k)) (filter P ks)"
  by (induction ks) auto

lemma cell_at_restrict:
  "cell_at long (v, Y) d = cell_at (filter (\<lambda>ob. location_id ob = Y) long) (v, Y) d"
proof -
  have "map_of (map (\<lambda>ob. (obs_key ob, val ob)) long) ((v, Y), d) =
        map_of (map (\<lambda>ob. (obs_key ob, val ob)) (filter (\<lambda>ob. location_id ob = Y) long)) ((v, Y), d)"
    by (induction long) (auto simp: obs_key_def)
  then show ?thesis by (simp add: cell_at_def)
qed

lemma diff_df_region:
  "filter (\<lambda>x. snd (fst x) = Y) (rows (diff_df long p)) =
     map (\<lambda>k. (k, diff_cells p (map (cell_at (filter (\<lambda>ob. location_id ob = Y) long) k)
                                     (input_date_range long))))
         (sort (remdups (map (\<lambda>ob. (variable ob, location_id ob))
                             (filter (\<lambda>ob. location_id ob = Y) long))))"
proof -
  let ?key = "\<lambda>ob. (variable ob, location_id ob)"
  have a: "filter (\<lambda>k. snd k = Y) (map ?key long) = map ?key (filter (\<lambda>ob. location_id ob = Y) long)"
    by (induction long) auto
  have "filter (\<lambda>x. snd (fst x) = Y) (rows (diff_df long p)) =
      map (\<lambda>k. (k, diff_cells p (map (cell_at long k) (input_date_range long))))
          (filter (\<lambda>k. snd k = Y) (sort (remdups (map ?key long))))"
    unfolding rows_diff_df by (rule filter_tabulate)
  also have "\<dots> = map (\<lambda>k. (k, diff_cells p (map (cell_at long k) (input_date_range long))))
          (sort (remdups (map ?key (filter (\<lambda>ob. location_id ob = Y) long))))"
    by (simp only: filter_sort_remdups a)
  also have "\<dots> = map (\<lambda>k. (k, diff_cells p (map (cell_at (filter (\<lambda>ob. location_id ob = Y) long) k)
                                     (input_date_range long))))
         (sort (remdups (map ?key (filter (\<lambda>ob. location_id ob = Y) long))))"
  proof (rule map_cong [OF refl])
    fix k assume "k \<in> set (sort (remdups (map ?key (filter (\<lambda>ob. location_id ob = Y) long))))"
    then obtain v where k: "k = (v, Y)" by auto
    have "cell_at long k = cell_at (filter (\<lambda>ob. location_id ob = Y) long) k"
      unfolding k using cell_at_restrict [of long v Y] by (simp add: fun_eq_iff)
    then show "(k, diff_cells p (map (cell_at long k) (input_date_range long))) =
        (k, diff_cells p (map (cell_at (filter (\<lambda>ob. location_id ob = Y) long) k) (input_date_range long)))"
      by simp
  qed
  finally show ?thesis .
qed

lemma diff_df_region_cong:
  assumes same: "set (filter (\<lambda>ob. location_id ob = Y) long1) = set (filter (\<lambda>ob. location_id ob = Y) long2)"
      and d1: "distinct (map obs_key long1)" and d2: "distinct (map obs_key long2)"
      and axis: "input_date_range long1 = input_date_range long2"
  shows "filter (\<lambda>x. snd (fst x) = Y) (rows (diff_df long1 p)) =
         filter (\<lambda>x. snd (fst x) = Y) (rows (diff_df long2 p))"
proof -
  let ?Y1 = "filter (\<lambda>ob. location_id ob = Y) long1"
  let ?Y2 = "filter (\<lambda>ob. location_id ob = Y) long2"
  have c: "cell_at ?Y1 = cell_at ?Y2"
    using same distinct_map_filter [OF d1] distinct_map_filter [OF d2] by (rule cell_at_cong)
  have k: "sort (remdups (map (\<lambda>ob. (variable ob, location_id ob)) ?Y1)) =
           sort (remdups (map (\<lambda>ob. (variable ob, location_id ob)) ?Y2))"
    by (rule sort_remdups_cong) (simp only: set_map same)
  show ?thesis
    unfolding diff_df_region by (simp only: c k axis)
qed

lemma field_rows_region:
  "filter (\<lambda>x. fst x = Y) (field_rows rs f) = field_rows (filter (\<lambda>x. snd (fst x) = Y) rs) f"
  unfolding field_rows_def by (induction rs) auto

lemma map_of_region: "map_of (filter (\<lambda>x. fst x = Y) xs) Y = map_of xs Y"
  by (induction xs) auto

lemma frame_div_region:
  "filter (\<lambda>x. fst x = Y) (rows (frame_div a b)) =
     map (\<lambda>l. (l, case (map_of (filter (\<lambda>x. fst x = Y) (rows a)) l,
                        map_of (filter (\<lambda>x. fst x = Y) (rows b)) l) of
                    (Some x, Some y) \<Rightarrow> map2 fdiv x y
                  | _ \<Rightarrow> replicate (length (columns a)) NaN))
         (sort (remdups (map fst (filter (\<lambda>x. fst x = Y) (rows a)) @
                         map fst (filter (\<lambda>x. fst x = Y) (rows b)))))"
proof -
  let ?H = "\<lambda>ra rb l. case (map_of ra l, map_of rb l) of
                    (Some x, Some y) \<Rightarrow> map2 fdiv x y
                  | _ \<Rightarrow> replicate (length (columns a)) NaN"
  have f: "filter (\<lambda>l. l = Y) (map fst xs) = map fst (filter (\<lambda>x. fst x = Y) xs)"
    for xs :: "(location \<times> cell list) list"
    by (induction xs) auto
  have "filter (\<lambda>x. fst x = Y) (rows (frame_div a b)) =
      map (\<lambda>l. (l, ?H (rows a) (rows b) l))
          (filter (\<lambda>l. l = Y) (sort (remdups (map fst (rows a) @ map fst (rows b)))))"
    unfolding frame_div_def by (simp add: filter_tabulate [where P = "\<lambda>l. l = Y"])
  also have "\<dots> = map (\<lambda>l. (l, ?H (rows a) (rows b) l))
          (sort (remdups (map fst (filter (\<lambda>x. fst x = Y) (rows a)) @
                          map fst (filter (\<lambda>x. fst x = Y) (rows b)))))"
    by (simp only: filter_sort_remdups filter_append f)
  also have "\<dots> = map (\<lambda>l. (l, ?H (filter (\<lambda>x. fst x = Y) (rows a)) (filter (\<lambda>x. fst x = Y) (rows b)) l))
          (sort (remdups (map fst (filter (\<lambda>x. fst x = Y) (rows a)) @
                          map fst (filter (\<lambda>x. fst x = Y) (rows b)))))"
  proof (rule map_cong [OF refl])
    fix l
    assume "l \<in> set (sort (remdups (map fst (filter (\<lambda>x. fst x = Y) (rows a)) @
                          map fst (filter (\<lambda>x. fst x = Y) (rows b)))))"
    then have "l = Y" by auto
    then show "(l, ?H (rows a) (rows b) l) =
        (l, ?H (filter (\<lambda>x. fst x = Y) (rows a)) (filter (\<lambda>x. fst x = Y) (rows b)) l)"
      by (simp add: map_of_region)
  qed
  finally show ?thesis .
qed

lemma method_frame_region_cong:
  assumes "filter (\<lambda>x. snd (fst x) = Y) (rows df1) = filter (\<lambda>x. snd (fst x) = Y) (rows df2)"
      and "columns df1 = columns df2"
  shows "filter (\<lambda>x. fst x = Y) (rows (method_frame df1 m)) =
         filter (\<lambda>x. fst x = Y) (rows (method_frame df2 m))"
  unfolding method_frame_def frame_div_region
  by (simp only: DataFrame.select_convs field_rows_region assms)

lemma relabel_region:
  "filter (\<lambda>x. fst (fst x) = Y) (map (\<lambda>(l, r). ((l, n), r)) rs) =
     map (\<lambda>(l, r). ((l, n), r)) (filter (\<lambda>x. fst x = Y) rs)"
  by (induction rs) auto

lemma concat_frames_region:
  "filter (\<lambda>x. fst (fst x) = Y) (rows (concat_frames axis (map (\<lambda>m. (name m, F m)) ms))) =
     concat (map (\<lambda>m. map (\<lambda>(l, r). ((l, name m), r)) (filter (\<lambda>x. fst x = Y) (rows (F m)))) ms)"
  by (induction ms) (simp_all add: concat_frames_def relabel_region)

lemma all_wide_region:
  "filter (\<lambda>x. fst (fst x) = Y) (rows (all_wide long fs)) =
     sort_key fst (filter (\<lambda>(k, r). \<exists>c \<in> set r. notna c)
       (filter (\<lambda>x. fst (fst x) = Y) (rows (concat_frames (input_date_range long) fs))))"
proof -
  have comm: "filter (\<lambda>x. fst (fst x) = Y) (filter Q xs) = filter Q (filter (\<lambda>x. fst (fst x) = Y) xs)"
    for Q and xs :: "((location \<times> string) \<times> cell list) list"
    by (induction xs) auto
  show ?thesis
    unfolding all_wide_def sort_index_def dropna_all_def
    by (simp only: DataFrame.select_convs filter_sort comm)
qed

lemma all_recent_data_region:
  "filter (\<lambda>x. fst (fst x) = Y) (all_recent_data long rd aw) =
     filter (\<lambda>(k, r). has_recent_data (input_date_range long) (recent_date_range long rd) r)
       (filter (\<lambda>x. fst (fst x) = Y) (rows aw))"
proof -
  have comm: "filter (\<lambda>x. fst (fst x) = Y) (filter Q xs) = filter Q (filter (\<lambda>x. fst (fst x) = Y) xs)"
    for Q and xs :: "((location \<times> string) \<times> cell list) list"
    by (induction xs) auto
  show ?thesis
    unfolding all_recent_data_def by (simp only: comm)
qed

lemma groupby_first_region:
  "filter (\<lambda>x. fst x = Y) (groupby_first rs) = groupby_first (filter (\<lambda>x. fst (fst x) = Y) rs)"
proof -
  let ?Yrs = "filter (\<lambda>x. fst (fst x) = Y) rs"
  let ?h = "\<lambda>rs l. (snd (fst (hd (filter (\<lambda>x. fst (fst x) = l) rs))),
                     first_cells (map snd (filter (\<lambda>x. fst (fst x) = l) rs)))"
  have gb: "groupby_first xs = map (\<lambda>l. (l, ?h xs l)) (sort (remdups (map (\<lambda>x. fst (fst x)) xs)))" for xs
    by (simp add: groupby_first_def Let_def case_prod_unfold)
  have locs: "filter (\<lambda>l. l = Y) (map (\<lambda>x. fst (fst x)) rs) = map (\<lambda>x. fst (fst x)) ?Yrs"
    by (induction rs) auto
  have "filter (\<lambda>x. fst x = Y) (groupby_first rs) =
      map (\<lambda>l. (l, ?h rs l)) (filter (\<lambda>l. l = Y) (sort (remdups (map (\<lambda>x. fst (fst x)) rs))))"
    unfolding gb by (rule filter_tabulate [where P = "\<lambda>l. l = Y"])
  also have "\<dots> = map (\<lambda>l. (l, ?h rs l)) (sort (remdups (map (\<lambda>x. fst (fst x)) ?Yrs)))"
    by (simp only: filter_sort_remdups locs)
  also have "\<dots> = map (\<lambda>l. (l, ?h ?Yrs l)) (sort (remdups (map (\<lambda>x. fst (fst x)) ?Yrs)))"
  proof (rule map_cong [OF refl])
    fix l assume "l \<in> set (sort (remdups (map (\<lambda>x. fst (fst x)) ?Yrs)))"
    then have l: "l = Y" by auto
    have "filter (\<lambda>x. fst (fst x) = Y) ?Yrs = filter (\<lambda>x. fst (fst x) = Y) rs" by simp
    then show "(l, ?h rs l) = (l, ?h ?Yrs l)" unfolding l by (simp only:)
  qed
  also have "\<dots> = groupby_first ?Yrs" by (rule gb [symmetric])
  finally show ?thesis .
qed

lemma provenance_region:
  "filter (\<lambda>x. fst (fst x) = Y) (map (\<lambda>(l, n, r). ((l, ''positivity''), n)) first) =
     map (\<lambda>(l, n, r). ((l, ''positivity''), n)) (filter (\<lambda>x. fst x = Y) first)"
  by (induction first) auto

lemma positivity_region:
  "filter (\<lambda>x. fst x = Y) (map (\<lambda>(l, n, r). (l, r)) first) =
     map (\<lambda>(l, n, r). (l, r)) (filter (\<lambda>x. fst x = Y) first)"
  by (induction first) auto

lemma stack_region:
  "filter (\<lambda>x. fst x = Y) (stack axis rs) = stack axis (filter (\<lambda>x. fst x = Y) rs)"
proof (induction rs)
  case Nil
  show ?case by (simp add: stack_def)
next
  case (Cons x rs)
  obtain l r where x: "x = (l, r)" by (cases x)
  have split: "stack axis (x # rs) =
      map (\<lambda>(d, c). (l, d, c)) (filter (\<lambda>(d, c). notna c) (zip axis r)) @ stack axis rs"
    by (simp add: stack_def x)
  have one: "filter (\<lambda>x. fst x = Y) (map (\<lambda>(d, c). (l, d, c)) zs) =
      (if l = Y then map (\<lambda>(d, c). (l, d, c)) zs else [])" for zs :: "(date \<times> cell) list"
    by (induction zs) auto
  show ?case
    unfolding split filter_append one using Cons.IH
    by (simp add: x stack_def)
qed

lemma assemble_region:
  "filter (\<lambda>x. fst (fst x) = Y) (provenance (test_positivity (assemble long rd aw))) =
     map (\<lambda>(l, n, r). ((l, ''positivity''), n))
       (groupby_first (filter (\<lambda>(k, r). has_recent_data (input_date_range long) (recent_date_range long rd) r)
          (filter (\<lambda>x. fst (fst x) = Y) (rows aw))))"
  "filter (\<lambda>x. fst x = Y) (timeseries_df (test_positivity (assemble long rd aw))) =
     stack (input_date_range long) (map (\<lambda>(l, n, r). (l, r))
       (groupby_first (filter (\<lambda>(k, r). has_recent_data (input_date_range long) (recent_date_range long rd) r)
          (filter (\<lambda>x. fst (fst x) = Y) (rows aw)))))"
  unfolding provenance_assemble timeseries_df_assemble
  by (simp_all only: provenance_region stack_region positivity_region groupby_first_region
        all_recent_data_region)

text \<open>
  C4, as the claim states it, fails: \<open>stale_input\<close> and \<open>region_B_input\<close> hold the same
  observations for region B and differ in region A only, which the second lacks. With
  region A the date axis runs to day 3, the recency window is days 2 and 3 and region
  B has no selection; without it the axis ends on day 1 and region B is selected.
\<close>

theorem region_isolation_counterexample:
  "region_observations stale_input ''B'' = region_observations region_B_input ''B'' \<and>
   run stale_input stale_methods 1 2 =
     Inr \<lparr>all_methods_timeseries =
            \<lparr>columns = [0, 1, 2, 3],
             rows = [((''A'', ''method1''), [NaN, Fin (1 / 10), Fin (1 / 10), Fin (1 / 2)]),
                     ((''B'', ''method1''), [NaN, Fin (1 / 10), NaN, NaN])]\<rparr>,
          test_positivity =
            \<lparr>timeseries_df = [(''A'', 1, Fin (1 / 10)), (''A'', 2, Fin (1 / 10)), (''A'', 3, Fin (1 / 2))],
             provenance = [((''A'', ''positivity''), ''method1'')]\<rparr>\<rparr> \<and>
   run region_B_input stale_methods 1 2 =
     Inr \<lparr>all_methods_timeseries =
            \<lparr>columns = [0, 1], rows = [((''B'', ''method1''), [NaN, Fin (1 / 10)])]\<rparr>,
          test_positivity =
            \<lparr>timeseries_df = [(''B'', 1, Fin (1 / 10))],
             provenance = [((''B'', ''positivity''), ''method1'')]\<rparr>\<rparr>"
  by code_simp

text \<open>
  C4, amended: for two snapshots that hold the same observations for region Y, on both
  of which \<^verbatim>\<open>run\<close> returns, and whose observations of the needed fields have the same
  earliest and the same latest date, the rows of region Y in the delta table and in
  the table of candidates, its provenance and its output series are the same.
\<close>

theorem region_isolation:
  assumes agree: "set (region_observations ds1 Y) = set (region_observations ds2 Y)"
      and r1: "run ds1 methods diff_days recent_days = Inr res1"
      and r2: "run ds2 methods diff_days recent_days = Inr res2"
      and s: "start_date (input_long ds1 methods) = start_date (input_long ds2 methods)"
      and e: "end_date (input_long ds1 methods) = end_date (input_long ds2 methods)"
  shows "filter (\<lambda>x. snd (fst x) = Y) (rows (diff_df (input_long ds1 methods) diff_days)) =
         filter (\<lambda>x. snd (fst x) = Y) (rows (diff_df (input_long ds2 methods) diff_days)) \<and>
         filter (\<lambda>x. fst (fst x) = Y) (rows (all_methods_timeseries res1)) =
         filter (\<lambda>x. fst (fst x) = Y) (rows (all_methods_timeseries res2)) \<and>
         filter (\<lambda>x. fst (fst x) = Y) (provenance (test_positivity res1)) =
         filter (\<lambda>x. fst (fst x) = Y) (provenance (test_positivity res2)) \<and>
         filter (\<lambda>x. fst x = Y) (timeseries_df (test_positivity res1)) =
         filter (\<lambda>x. fst x = Y) (timeseries_df (test_positivity res2))"
proof -
  define long1 where "long1 = input_long ds1 methods"
  define long2 where "long2 = input_long ds2 methods"
  define F1 where "F1 = (\<lambda>m. method_frame (diff_df long1 diff_days) m)"
  define F2 where "F2 = (\<lambda>m. method_frame (diff_df long2 diff_days) m)"
  define aw1 where "aw1 = all_wide long1 (map (\<lambda>m. (name m, F1 m)) methods)"
  define aw2 where "aw2 = all_wide long2 (map (\<lambda>m. (name m, F2 m)) methods)"
  have res1: "res1 = assemble long1 recent_days aw1"
    using run_Inr [OF r1] by (simp add: long1_def aw1_def F1_def)
  have res2: "res2 = assemble long2 recent_days aw2"
    using run_Inr [OF r2] by (simp add: long2_def aw2_def F2_def)
  have "schema_ok ds1 methods" using r1 run_Inr_iff by blast
  then have d1: "distinct (map obs_key long1)" by (simp add: schema_ok_def long1_def)
  have "schema_ok ds2 methods" using r2 run_Inr_iff by blast
  then have d2: "distinct (map obs_key long2)" by (simp add: schema_ok_def long2_def)
  have same: "set (filter (\<lambda>ob. location_id ob = Y) long1) = set (filter (\<lambda>ob. location_id ob = Y) long2)"
  proof -
    have "set (filter (\<lambda>ob. location_id ob = Y) (timeseries_long ds cols)) =
        {ob \<in> set (region_observations ds Y). variable ob \<in> set cols}" for ds cols
      by (auto simp: set_timeseries_long region_observations_def)
    then show ?thesis unfolding long1_def long2_def by (simp only: agree)
  qed
  have axis: "input_date_range long1 = input_date_range long2"
    using s e by (simp add: input_date_range_def long1_def long2_def)
  have recent: "recent_date_range long1 recent_days = recent_date_range long2 recent_days"
    using e axis by (simp add: recent_date_range_def long1_def long2_def)
  have D: "filter (\<lambda>x. snd (fst x) = Y) (rows (diff_df long1 diff_days)) =
           filter (\<lambda>x. snd (fst x) = Y) (rows (diff_df long2 diff_days))"
    using same d1 d2 axis by (rule diff_df_region_cong)
  have cols: "columns (diff_df long1 diff_days) = columns (diff_df long2 diff_days)"
    by (simp add: columns_diff_df axis)
  have F: "filter (\<lambda>x. fst x = Y) (rows (F1 m)) = filter (\<lambda>x. fst x = Y) (rows (F2 m))" for m
    unfolding F1_def F2_def using D cols by (rule method_frame_region_cong)
  have C: "filter (\<lambda>x. fst (fst x) = Y) (rows (concat_frames (input_date_range long1) (map (\<lambda>m. (name m, F1 m)) methods))) =
           filter (\<lambda>x. fst (fst x) = Y) (rows (concat_frames (input_date_range long2) (map (\<lambda>m. (name m, F2 m)) methods)))"
    unfolding concat_frames_region by (simp only: F)
  have A: "filter (\<lambda>x. fst (fst x) = Y) (rows aw1) = filter (\<lambda>x. fst (fst x) = Y) (rows aw2)"
    unfolding aw1_def aw2_def all_wide_region by (simp only: C)
  have P: "filter (\<lambda>x. fst (fst x) = Y) (provenance (test_positivity res1)) =
         filter (\<lambda>x. fst (fst x) = Y) (provenance (test_positivity res2))"
    unfolding res1 res2 assemble_region by (simp only: A axis recent)
  have T: "filter (\<lambda>x. fst x = Y) (timeseries_df (test_positivity res1)) =
         filter (\<lambda>x. fst x = Y) (timeseries_df (test_positivity res2))"
    unfolding res1 res2 assemble_region by (simp only: A axis recent)
  have A': "filter (\<lambda>x. fst (fst x) = Y) (rows (all_methods_timeseries res1)) =
         filter (\<lambda>x. fst (fst x) = Y) (rows (all_methods_timeseries res2))"
    unfolding res1 res2 all_methods_timeseries_assemble by (rule A)
  from D A' P T show ?thesis unfolding long1_def long2_def by (intro conjI)
qed

theorem region_isolation_witness:
  "set (region_observations stale_input ''B'') = set (region_observations corrupted_input ''B'') \<and>
   region_observations stale_input ''A'' \<noteq> region_observations corrupted_input ''A'' \<and>
   start_date (input_long stale_input stale_methods) = start_date (input_long corrupted_input stale_methods) \<and>
   end_date (input_long stale_input stale_methods) = end_date (input_long corrupted_input stale_methods) \<and>
   (\<exists>res1 res2.
      run stale_input stale_methods 1 3 = Inr res1 \<and>
      run corrupted_input stale_methods 1 3 = Inr res2 \<and>
      all_methods_timeseries res1 \<noteq> all_methods_timeseries res2 \<and>
      filter (\<lambda>x. fst (fst x) = ''B'') (rows (all_methods_timeseries res1)) =
      filter (\<lambda>x. fst (fst x) = ''B'') (rows (all_methods_timeseries res2)) \<and>
      filter (\<lambda>x. fst (fst x) = ''B'') (provenance (test_positivity res1)) =
      filter (\<lambda>x. fst (fst x) = ''B'') (provenance (test_positivity res2)) \<and>
      filter (\<lambda>x. fst (fst x) = ''B'') (provenance (test_positivity res2)) =
        [((''B'', ''positivity''), ''method1'')] \<and>
      filter (\<lambda>x. fst x = ''B'') (timeseries_df (test_positivity res1)) =
      filter (\<lambda>x. fst x = ''B'') (timeseries_df (test_positivity res2)) \<and>
      filter (\<lambda>x. fst x = ''B'') (timeseries_df (test_positivity res2)) = [(''B'', 1, Fin (1 / 10))])"
proof -
  let ?res1 = "\<lparr>all_methods_timeseries =
            \<lparr>columns = [0, 1, 2, 3],
             rows = [((''A'', ''method1''), [NaN, Fin (1 / 10), Fin (1 / 10), Fin (1 / 2)]),
                     ((''B'', ''method1''), [NaN, Fin (1 / 10), NaN, NaN])]\<rparr>,
          test_positivity =
            \<lparr>timeseries_df = [(''A'', 1, Fin (1 / 10)), (''A'', 2, Fin (1 / 10)),
                              (''A'', 3, Fin (1 / 2)), (''B'', 1, Fin (1 / 10))],
             provenance = [((''A'', ''positivity''), ''method1''),
                           ((''B'', ''positivity''), ''method1'')]\<rparr>\<rparr>"
  let ?res2 = "\<lparr>all_methods_timeseries =
            \<lparr>columns = [0, 1, 2, 3],
             rows = [((''B'', ''method1''), [NaN, Fin (1 / 10), NaN, NaN])]\<rparr>,
          test_positivity =
            \<lparr>timeseries_df = [(''B'', 1, Fin (1 / 10))],
             provenance = [((''B'', ''positivity''), ''method1'')]\<rparr>\<rparr>"
  have agree: "set (region_observations stale_input ''B'') = set (region_observations corrupted_input ''B'')"
    by code_simp
  have differ: "region_observations stale_input ''A'' \<noteq> region_observations corrupted_input ''A''"
    by code_simp
  have s: "start_date (input_long stale_input stale_methods) = start_date (input_long corrupted_input stale_methods)"
    by code_simp
  have e: "end_date (input_long stale_input stale_methods) = end_date (input_long corrupted_input stale_methods)"
    by code_simp
  have r1: "run stale_input stale_methods 1 3 = Inr ?res1" by code_simp
  have r2: "run corrupted_input stale_methods 1 3 = Inr ?res2" by code_simp
  note iso = region_isolation [OF agree r1 r2 s e]
  have ne: "all_methods_timeseries ?res1 \<noteq> all_methods_timeseries ?res2" by simp
  have p2: "filter (\<lambda>x. fst (fst x) = ''B'') (provenance (test_positivity ?res2)) =
        [((''B'', ''positivity''), ''method1'')]" by simp
  have t2: "filter (\<lambda>x. fst x = ''B'') (timeseries_df (test_positivity ?res2)) = [(''B'', 1, Fin (1 / 10))]"
    by simp
  note rows_eq = iso [THEN conjunct2, THEN conjunct1]
  note prov_eq = iso [THEN conjunct2, THEN conjunct2, THEN conjunct1]
  note series_eq = iso [THEN conjunct2, THEN conjunct2, THEN conjunct2]
  have "\<exists>res1 res2.
      run stale_input stale_methods 1 3 = Inr res1 \<and>
      run corrupted_input stale_methods 1 3 = Inr res2 \<and>
      all_methods_timeseries res1 \<noteq> all_methods_timeseries res2 \<and>
      filter (\<lambda>x. fst (fst x) = ''B'') (rows (all_methods_timeseries res1)) =
      filter (\<lambda>x. fst (fst x) = ''B'') (rows (all_methods_timeseries res2)) \<and>
      filter (\<lambda>x. fst (fst x) = ''B'') (provenance (test_positivity res1)) =
      filter (\<lambda>x. fst (fst x) = ''B'') (provenance (test_positivity res2)) \<and>
      filter (\<lambda>x. fst (fst x) = ''B'') (provenance (test_positivity res2)) =
        [((''B'', ''positivity''), ''method1'')] \<and>
      filter (\<lambda>x. fst x = ''B'') (timeseries_df (test_positivity res1)) =
      filter (\<lambda>x. fst x = ''B'') (timeseries_df (test_positivity res2)) \<and>
      filter (\<lambda>x. fst x = ''B'') (timeseries_df (test_positivity res2)) = [(''B'', 1, Fin (1 / 10))]"
    by (intro exI [of _ ?res1] exI [of _ ?res2] conjI r1 r2 ne rows_eq prov_eq p2 series_eq t2)
  with agree differ s e show ?thesis by (intro conjI)
qed

end
